theory Spec2Isabelle
  imports
    Main
    "HOL-Library.Word"
    "HOL-Library.Multiset"
    "HOL-Library.List_Lexorder"
    "HOL-Library.Char_ord"
begin

section \<open>The API load-balancer builder of pkg/model/api_loadbalancer.go\<close>

text \<open>
  The development embeds \<^verbatim>\<open>APILoadBalancerBuilder.Build\<close> and
  \<^verbatim>\<open>chooseBestSubnetForELB\<close>. Go strings are \<open>string\<close> (byte lists); with
  \<open>List_Lexorder\<close> and \<open>Char_ord\<close> the order \<open>(<)\<close> on them is the bytewise
  lexicographic order of Go's \<^verbatim>\<open><\<close> on strings. A pointer that may be nil is an
  \<open>option\<close>. A panic and an error return are values.
\<close>

subsection \<open>The cluster specification (package kops)\<close>

type_synonym LoadBalancerType = string
type_synonym SubnetType = string
type_synonym InstanceGroupRole = string

text \<open>
  Modelled from the spec: the string constants of package kops
  (\<^verbatim>\<open>LoadBalancerTypeInternal\<close>, \<^verbatim>\<open>LoadBalancerTypePublic\<close>,
  \<^verbatim>\<open>SubnetTypePublic\<close>, \<^verbatim>\<open>SubnetTypeUtility\<close>, \<^verbatim>\<open>SubnetTypePrivate\<close>,
  \<^verbatim>\<open>InstanceGroupRoleMaster\<close>) are declared outside this file. The spec names the
  load-balancer types internal and public, the subnet types public, utility and private.
  The cases of one Go \<^verbatim>\<open>switch\<close> are distinct constants; nothing else about their
  values is used below.
\<close>

definition LoadBalancerTypeInternal :: LoadBalancerType where
  "LoadBalancerTypeInternal = ''internal''"

definition LoadBalancerTypePublic :: LoadBalancerType where
  "LoadBalancerTypePublic = ''public''"

definition SubnetTypePublic :: SubnetType where
  "SubnetTypePublic = ''public''"

definition SubnetTypeUtility :: SubnetType where
  "SubnetTypeUtility = ''utility''"

definition SubnetTypePrivate :: SubnetType where
  "SubnetTypePrivate = ''private''"

definition InstanceGroupRoleMaster :: InstanceGroupRole where
  "InstanceGroupRoleMaster = ''master''"

text \<open>\<^verbatim>\<open>lbSpec.Type\<close> and \<^verbatim>\<open>*lbSpec.IdleTimeoutSeconds\<close> (an \<^verbatim>\<open>*int64\<close>).\<close>

record LoadBalancerAccessSpec =
  lb_Type :: LoadBalancerType
  lb_IdleTimeoutSeconds :: "64 word option"

record ClusterSubnetSpec =
  subnet_Name :: string
  subnet_Zone :: string
  subnet_Type :: SubnetType

text \<open>
  The fields of \<^verbatim>\<open>b.Cluster.Spec\<close> that the builder reads:
  \<^verbatim>\<open>Spec.API.LoadBalancer\<close>, \<^verbatim>\<open>Spec.Subnets\<close>, \<^verbatim>\<open>Spec.KubernetesAPIAccess\<close>.
\<close>

record ClusterSpec =
  spec_LoadBalancer :: "LoadBalancerAccessSpec option"
  spec_Subnets :: "ClusterSubnetSpec list"
  spec_KubernetesAPIAccess :: "string list"

text \<open>An instance group: \<^verbatim>\<open>ig.ObjectMeta.Name\<close> and \<^verbatim>\<open>ig.Spec.Subnets\<close>.\<close>

record InstanceGroup =
  ig_Name :: string
  ig_Subnets :: "string list"

text \<open>
  The builder embeds \<^verbatim>\<open>*KopsModelContext\<close>, whose methods are declared outside this
  file. The methods that return data are taken as parameters: the fields below hold
  what \<^verbatim>\<open>b.UseLoadBalancerForAPI()\<close>, \<^verbatim>\<open>b.MasterInstanceGroups()\<close>,
  \<^verbatim>\<open>b.ClusterName()\<close>, \<^verbatim>\<open>b.GetELBName32(x)\<close> and \<^verbatim>\<open>b.ELBSecurityGroupName(x)\<close>
  return.
\<close>

record APILoadBalancerBuilder =
  Cluster :: ClusterSpec
  UseLoadBalancerForAPI :: bool
  MasterInstanceGroups :: "InstanceGroup list"
  ClusterName :: string
  GetELBName32 :: "string \<Rightarrow> string"
  ELBSecurityGroupName :: "string \<Rightarrow> string"

subsection \<open>Links and tasks (package awstasks)\<close>

text \<open>
  Modelled from the spec: the \<^verbatim>\<open>LinkTo...\<close> methods of \<^verbatim>\<open>KopsModelContext\<close> are
  declared outside this file. By the spec a link is a named reference that carries only
  an identifying key and is resolved later; a link is modelled as the method that built
  it together with the argument it was given. \<^verbatim>\<open>LinkToSubnet\<close> receives a pointer
  that may be nil.
\<close>

datatype SubnetLink = LinkToSubnet "ClusterSubnetSpec option"

datatype SecurityGroupLink =
    LinkToELBSecurityGroup string
  | LinkToSecurityGroup InstanceGroupRole

datatype VPCLink = LinkToVPC

datatype LoadBalancerLink = LinkToELB string

datatype AutoscalingGroupLink = LinkToAutoscalingGroup InstanceGroup

text \<open>
  \<^verbatim>\<open>time.Duration\<close> is an \<^verbatim>\<open>int64\<close> of nanoseconds. \<^verbatim>\<open>d.Seconds()\<close> goes
  through \<^verbatim>\<open>float64\<close>; \<open>Seconds d\<close> stands for \<^verbatim>\<open>int64(d.Seconds())\<close>.
\<close>

type_synonym Duration = "64 word"

datatype seconds = Seconds Duration

definition Second :: Duration where
  "Second = 1000000000"

definition Minute :: Duration where
  "Minute = 60 * Second"

definition LoadBalancerDefaultIdleTimeout :: Duration where
  "LoadBalancerDefaultIdleTimeout = 5 * Minute"

text \<open>
  The task structs, with the fields that this builder sets. \<^verbatim>\<open>s\<close>, \<^verbatim>\<open>i64\<close> and
  \<^verbatim>\<open>fi.Bool\<close> return pointers, so these fields are options; a field that a composite
  literal leaves out is nil.
\<close>

record LoadBalancerListener =
  InstancePort :: int

record LoadBalancerHealthCheck =
  hc_Target :: "string option"
  hc_Timeout :: "int option"
  hc_Interval :: "int option"
  hc_HealthyThreshold :: "int option"
  hc_UnhealthyThreshold :: "int option"

record LoadBalancerConnectionSettings =
  cs_IdleTimeout :: "seconds option"

record LoadBalancer =
  elb_Name :: "string option"
  elb_LoadBalancerName :: "string option"
  elb_SecurityGroups :: "SecurityGroupLink list"
  elb_Subnets :: "SubnetLink list"
  elb_Listeners :: "(string \<times> LoadBalancerListener) list"
  elb_HealthCheck :: "LoadBalancerHealthCheck option"
  elb_ConnectionSettings :: "LoadBalancerConnectionSettings option"
  elb_Scheme :: "string option"

record SecurityGroup =
  sg_Name :: "string option"
  sg_VPC :: "VPCLink option"
  sg_Description :: "string option"
  sg_RemoveExtraRules :: "string list"

record SecurityGroupRule =
  rule_Name :: "string option"
  rule_SecurityGroup :: "SecurityGroupLink option"
  rule_SourceGroup :: "SecurityGroupLink option"
  rule_Egress :: "bool option"
  rule_CIDR :: "string option"
  rule_FromPort :: "int option"
  rule_ToPort :: "int option"
  rule_Protocol :: "string option"

record LoadBalancerAttachment =
  att_Name :: "string option"
  att_LoadBalancer :: "LoadBalancerLink option"
  att_AutoscalingGroup :: "AutoscalingGroupLink option"

datatype task =
    LoadBalancerTask LoadBalancer
  | SecurityGroupTask SecurityGroup
  | SecurityGroupRuleTask SecurityGroupRule
  | LoadBalancerAttachmentTask LoadBalancerAttachment

text \<open>
  Modelled from the spec: \<^verbatim>\<open>fi.ModelBuilderContext\<close> and its \<^verbatim>\<open>AddTask\<close> are
  declared outside this file. By the spec the builder only appends tasks to the
  collection, and its output is an append-only sequence of task descriptors; what the
  collection does with two tasks of one name is the collection's business. The context
  is the sequence of the tasks added so far.
\<close>

type_synonym ModelBuilderContext = "task list"

definition AddTask :: "ModelBuilderContext \<Rightarrow> task \<Rightarrow> ModelBuilderContext" where
  "AddTask c t = c @ [t]"

subsection \<open>Errors and panics\<close>

text \<open>
  The three \<^verbatim>\<open>fmt.Errorf\<close> calls of \<^verbatim>\<open>Build\<close>, each with the values it formats:
  \<^verbatim>\<open>"unhandled LoadBalancer type %q"\<close>, \<^verbatim>\<open>"subnet %q had unknown type %q"\<close> and
  \<^verbatim>\<open>"unknown elb Type: %q"\<close>.
\<close>

datatype error =
    Errorf_unhandled_LoadBalancer_type LoadBalancerType
  | Errorf_subnet_had_unknown_type string SubnetType
  | Errorf_unknown_elb_Type LoadBalancerType

text \<open>Go's run-time panic of an index expression \<^verbatim>\<open>a[i]\<close> with \<^verbatim>\<open>i >= len(a)\<close>.\<close>

datatype panic = IndexOutOfRange nat nat

definition index :: "'a list \<Rightarrow> nat \<Rightarrow> panic + 'a" where
  "index a i = (if i < length a then Inr (a ! i) else Inl (IndexOutOfRange i (length a)))"

subsection \<open>Go's map iteration and \<^verbatim>\<open>sort.Sort\<close>\<close>

text \<open>
  \<^verbatim>\<open>subnetsByZone\<close> is a Go map from zone to a slice of subnets. It is modelled by
  an association list with one entry per key; \<open>mapAppend k v m\<close> is
  \<^verbatim>\<open>m[k] = append(m[k], v)\<close>.
\<close>

fun mapAppend :: "'k \<Rightarrow> 'v \<Rightarrow> ('k \<times> 'v list) list \<Rightarrow> ('k \<times> 'v list) list" where
  "mapAppend k v [] = [(k, [v])]"
| "mapAppend k v ((k', vs) # m) =
     (if k' = k then (k', vs @ [v]) # m else (k', vs) # mapAppend k v m)"

text \<open>
  A \<^verbatim>\<open>for ... range\<close> over a Go map visits every entry once, in an order that the
  language leaves unspecified and the runtime randomises. The order of one run is a
  parameter \<open>rng\<close>: each entry is put at position \<open>rng n mod (n + 1)\<close> among the \<open>n\<close>
  entries placed before it, so that every \<open>rng\<close> gives a permutation of the entries
  and every permutation comes from some \<open>rng\<close>.
\<close>

definition insertAt :: "nat \<Rightarrow> 'a \<Rightarrow> 'a list \<Rightarrow> 'a list" where
  "insertAt i x ys = take i ys @ x # drop i ys"

fun rangeOrder :: "(nat \<Rightarrow> nat) \<Rightarrow> 'a list \<Rightarrow> 'a list" where
  "rangeOrder rng [] = []"
| "rangeOrder rng (x # xs) =
     insertAt (rng (length xs) mod Suc (length xs)) x (rangeOrder rng xs)"

text \<open>
  \<^verbatim>\<open>sort.Sort\<close> is Go's standard library: it reorders the slice into ascending order
  by the \<^verbatim>\<open>Less\<close> method and is not guaranteed to be stable. It is modelled by an
  insertion sort on the order \<open>lt\<close>; the properties below rest only on the result
  being a permutation of the input that is ordered by \<open>lt\<close>.
\<close>

fun insertSorted :: "('a \<Rightarrow> 'a \<Rightarrow> bool) \<Rightarrow> 'a \<Rightarrow> 'a list \<Rightarrow> 'a list" where
  "insertSorted lt x [] = [x]"
| "insertSorted lt x (y # ys) =
     (if lt x y then x # y # ys else y # insertSorted lt x ys)"

fun sort_Sort :: "('a \<Rightarrow> 'a \<Rightarrow> bool) \<Rightarrow> 'a list \<Rightarrow> 'a list" where
  "sort_Sort lt [] = []"
| "sort_Sort lt (x # xs) = insertSorted lt x (sort_Sort lt xs)"

subsection \<open>\<^verbatim>\<open>chooseBestSubnetForELB\<close>\<close>

record scoredSubnet =
  score :: int
  subnet :: ClusterSubnetSpec

text \<open>\<^verbatim>\<open>ByScoreDescending.Less\<close>, on the two elements \<^verbatim>\<open>a[i]\<close> and \<^verbatim>\<open>a[j]\<close>.\<close>

definition Less :: "scoredSubnet \<Rightarrow> scoredSubnet \<Rightarrow> bool" where
  "Less ai aj =
     (if score ai \<noteq> score aj then \<not> (score ai < score aj)
      else subnet_Name (subnet ai) < subnet_Name (subnet aj))"

text \<open>The set of the subnet names of all master instance groups.\<close>

definition migSubnets :: "APILoadBalancerBuilder \<Rightarrow> string set" where
  "migSubnets b = set (concat (map ig_Subnets (MasterInstanceGroups b)))"

text \<open>The body of the scoring loop, for one subnet.\<close>

definition scoreSubnet :: "string set \<Rightarrow> ClusterSubnetSpec \<Rightarrow> scoredSubnet" where
  "scoreSubnet migs s =
     \<lparr>score = (if subnet_Name s \<in> migs then 1 else 0)
              + (if subnet_Type s = SubnetTypeUtility then 1 else 0),
      subnet = s\<rparr>"

text \<open>
  The result is the pointer returned (\<open>None\<close> is nil), or the panic of an index
  expression. The \<^verbatim>\<open>glog\<close> line written when the two best scores are equal is not
  part of the result; the two index expressions of its condition are evaluated.
\<close>

definition chooseBestSubnetForELB ::
    "APILoadBalancerBuilder \<Rightarrow> string \<Rightarrow> ClusterSubnetSpec list \<Rightarrow> panic + ClusterSubnetSpec option" where
  "chooseBestSubnetForELB b zone subnets =
     (if length subnets = 0 then Inr None
      else if length subnets = 1 then
        (case index subnets 0 of Inl p \<Rightarrow> Inl p | Inr s \<Rightarrow> Inr (Some s))
      else
        let scoredSubnets = sort_Sort Less (map (scoreSubnet (migSubnets b)) subnets) in
        (case index scoredSubnets 0 of Inl p \<Rightarrow> Inl p | Inr s0 \<Rightarrow>
        (case index scoredSubnets 1 of Inl p \<Rightarrow> Inl p | Inr s1 \<Rightarrow>
        (case index scoredSubnets 0 of Inl p \<Rightarrow> Inl p | Inr best \<Rightarrow>
          Inr (Some (subnet best))))))"

subsection \<open>\<^verbatim>\<open>Build\<close>\<close>

text \<open>
  The first loop of \<^verbatim>\<open>Build\<close>: the subnets of the cluster, grouped by zone, those
  only that fit the type of the load balancer. A subnet of an unknown type ends
  \<^verbatim>\<open>Build\<close> with an error.
\<close>

fun groupSubnetsByZone ::
    "LoadBalancerAccessSpec \<Rightarrow> ClusterSubnetSpec list \<Rightarrow> (string \<times> ClusterSubnetSpec list) list
     \<Rightarrow> error + (string \<times> ClusterSubnetSpec list) list" where
  "groupSubnetsByZone lbSpec [] subnetsByZone = Inr subnetsByZone"
| "groupSubnetsByZone lbSpec (s # rest) subnetsByZone =
     (if subnet_Type s = SubnetTypePublic \<or> subnet_Type s = SubnetTypeUtility then
        (if lb_Type lbSpec \<noteq> LoadBalancerTypePublic
         then groupSubnetsByZone lbSpec rest subnetsByZone
         else groupSubnetsByZone lbSpec rest (mapAppend (subnet_Zone s) s subnetsByZone))
      else if subnet_Type s = SubnetTypePrivate then
        (if lb_Type lbSpec \<noteq> LoadBalancerTypeInternal
         then groupSubnetsByZone lbSpec rest subnetsByZone
         else groupSubnetsByZone lbSpec rest (mapAppend (subnet_Zone s) s subnetsByZone))
      else Inl (Errorf_subnet_had_unknown_type (subnet_Name s) (subnet_Type s)))"

text \<open>
  The second loop, over the entries of the map in the order of this run: it appends
  the link to the subnet chosen for each zone.
\<close>

fun chooseSubnets ::
    "APILoadBalancerBuilder \<Rightarrow> (string \<times> ClusterSubnetSpec list) list \<Rightarrow> SubnetLink list
     \<Rightarrow> panic + SubnetLink list" where
  "chooseSubnets b [] elbSubnets = Inr elbSubnets"
| "chooseSubnets b ((zone, subnets) # rest) elbSubnets =
     (case chooseBestSubnetForELB b zone subnets of
        Inl p \<Rightarrow> Inl p
      | Inr s \<Rightarrow> chooseSubnets b rest (elbSubnets @ [LinkToSubnet s]))"

text \<open>The rule of one CIDR of \<^verbatim>\<open>KubernetesAPIAccess\<close>, and the attachment of one
  master instance group: the bodies of the last two loops.\<close>

definition apiAccessRule :: "string \<Rightarrow> task" where
  "apiAccessRule cidr = SecurityGroupRuleTask
     \<lparr>rule_Name = Some (''https-api-elb-'' @ cidr),
      rule_SecurityGroup = Some (LinkToELBSecurityGroup ''api''),
      rule_SourceGroup = None,
      rule_Egress = None,
      rule_CIDR = Some cidr,
      rule_FromPort = Some 443,
      rule_ToPort = Some 443,
      rule_Protocol = Some ''tcp''\<rparr>"

definition masterAttachment :: "InstanceGroup \<Rightarrow> task" where
  "masterAttachment ig = LoadBalancerAttachmentTask
     \<lparr>att_Name = Some (''api-'' @ ig_Name ig),
      att_LoadBalancer = Some (LinkToELB ''api''),
      att_AutoscalingGroup = Some (LinkToAutoscalingGroup ig)\<rparr>"

text \<open>
  The composite literals of \<^verbatim>\<open>Build\<close>: the load balancer as it is before the
  \<^verbatim>\<open>switch\<close> that sets its scheme, the security group of the load balancer, the
  egress rule and the rule from the load balancer to the masters.
\<close>

definition idleTimeout :: "LoadBalancerAccessSpec \<Rightarrow> Duration" where
  "idleTimeout lbSpec =
     (case lb_IdleTimeoutSeconds lbSpec of
        None \<Rightarrow> LoadBalancerDefaultIdleTimeout
      | Some secs \<Rightarrow> Second * secs)"

definition newLoadBalancer ::
    "APILoadBalancerBuilder \<Rightarrow> LoadBalancerAccessSpec \<Rightarrow> SubnetLink list \<Rightarrow> LoadBalancer" where
  "newLoadBalancer b lbSpec elbSubnets =
     \<lparr>elb_Name = Some (''api.'' @ ClusterName b),
      elb_LoadBalancerName = Some (GetELBName32 b ''api''),
      elb_SecurityGroups = [LinkToELBSecurityGroup ''api''],
      elb_Subnets = elbSubnets,
      elb_Listeners = [(''443'', \<lparr>InstancePort = 443\<rparr>)],
      elb_HealthCheck = Some \<lparr>hc_Target = Some ''TCP:443'',
                              hc_Timeout = Some 5,
                              hc_Interval = Some 10,
                              hc_HealthyThreshold = Some 2,
                              hc_UnhealthyThreshold = Some 2\<rparr>,
      elb_ConnectionSettings = Some \<lparr>cs_IdleTimeout = Some (Seconds (idleTimeout lbSpec))\<rparr>,
      elb_Scheme = None\<rparr>"

definition elbSecurityGroup :: "APILoadBalancerBuilder \<Rightarrow> task" where
  "elbSecurityGroup b = SecurityGroupTask
     \<lparr>sg_Name = Some (ELBSecurityGroupName b ''api''),
      sg_VPC = Some LinkToVPC,
      sg_Description = Some ''Security group for api ELB'',
      sg_RemoveExtraRules = [''port=443'']\<rparr>"

definition elbEgressRule :: task where
  "elbEgressRule = SecurityGroupRuleTask
     \<lparr>rule_Name = Some ''api-elb-egress'',
      rule_SecurityGroup = Some (LinkToELBSecurityGroup ''api''),
      rule_SourceGroup = None,
      rule_Egress = Some True,
      rule_CIDR = Some ''0.0.0.0/0'',
      rule_FromPort = None,
      rule_ToPort = None,
      rule_Protocol = None\<rparr>"

definition elbToMasterRule :: task where
  "elbToMasterRule = SecurityGroupRuleTask
     \<lparr>rule_Name = Some ''https-elb-to-master'',
      rule_SecurityGroup = Some (LinkToSecurityGroup InstanceGroupRoleMaster),
      rule_SourceGroup = Some (LinkToELBSecurityGroup ''api''),
      rule_Egress = None,
      rule_CIDR = None,
      rule_FromPort = Some 443,
      rule_ToPort = Some 443,
      rule_Protocol = Some ''tcp''\<rparr>"

text \<open>
  \<^verbatim>\<open>Build\<close> from the construction of the load balancer on (after the subnets have
  been chosen) to its end: the second \<^verbatim>\<open>switch\<close> on the type, then the calls of
  \<^verbatim>\<open>AddTask\<close> in their order.
\<close>

definition buildTasks ::
    "APILoadBalancerBuilder \<Rightarrow> LoadBalancerAccessSpec \<Rightarrow> SubnetLink list \<Rightarrow> ModelBuilderContext
     \<Rightarrow> error option \<times> ModelBuilderContext" where
  "buildTasks b lbSpec elbSubnets c =
     (let elb = newLoadBalancer b lbSpec elbSubnets in
      if lb_Type lbSpec = LoadBalancerTypeInternal \<or> lb_Type lbSpec = LoadBalancerTypePublic
      then
        let elb = (if lb_Type lbSpec = LoadBalancerTypeInternal
                   then elb\<lparr>elb_Scheme := Some ''internal''\<rparr>
                   else elb\<lparr>elb_Scheme := None\<rparr>);
            c = AddTask c (LoadBalancerTask elb);
            c = AddTask c (elbSecurityGroup b);
            c = AddTask c elbEgressRule;
            c = foldl (\<lambda>c cidr. AddTask c (apiAccessRule cidr)) c
                  (spec_KubernetesAPIAccess (Cluster b));
            c = AddTask c elbToMasterRule;
            c = foldl (\<lambda>c ig. AddTask c (masterAttachment ig)) c (MasterInstanceGroups b)
        in (None, c)
      else (Some (Errorf_unknown_elb_Type (lb_Type lbSpec)), c))"

text \<open>
  \<^verbatim>\<open>Build\<close>. The result is the panic that ended the run, or the error returned
  (\<open>None\<close> is nil) with the context as the run left it. \<open>rng\<close> is the order in which
  this run's \<^verbatim>\<open>range\<close> visits \<^verbatim>\<open>subnetsByZone\<close>.
\<close>

definition Build ::
    "(nat \<Rightarrow> nat) \<Rightarrow> APILoadBalancerBuilder \<Rightarrow> ModelBuilderContext
     \<Rightarrow> panic + (error option \<times> ModelBuilderContext)" where
  "Build rng b c =
     (if \<not> UseLoadBalancerForAPI b then Inr (None, c)
      else case spec_LoadBalancer (Cluster b) of
        None \<Rightarrow> Inr (None, c)
      | Some lbSpec \<Rightarrow>
          if \<not> (lb_Type lbSpec = LoadBalancerTypeInternal \<or> lb_Type lbSpec = LoadBalancerTypePublic)
          then Inr (Some (Errorf_unhandled_LoadBalancer_type (lb_Type lbSpec)), c)
          else
            (case groupSubnetsByZone lbSpec (spec_Subnets (Cluster b)) [] of
               Inl err \<Rightarrow> Inr (Some err, c)
             | Inr subnetsByZone \<Rightarrow>
                 (case chooseSubnets b (rangeOrder rng subnetsByZone) [] of
                    Inl p \<Rightarrow> Inl p
                  | Inr elbSubnets \<Rightarrow> Inr (buildTasks b lbSpec elbSubnets c))))"

subsection \<open>The conditions of the first loop\<close>

text \<open>
  Two predicates to state properties with. A subnet is compatible with the load
  balancer when the first loop of \<^verbatim>\<open>Build\<close> keeps it: a public or utility subnet
  for a public load balancer, a private subnet for an internal one. Its type is known
  when the \<^verbatim>\<open>switch\<close> of that loop has a case for it.
\<close>

definition compatible :: "LoadBalancerAccessSpec \<Rightarrow> ClusterSubnetSpec \<Rightarrow> bool" where
  "compatible lbSpec s \<longleftrightarrow>
     (subnet_Type s = SubnetTypePublic \<or> subnet_Type s = SubnetTypeUtility)
       \<and> lb_Type lbSpec = LoadBalancerTypePublic
     \<or> subnet_Type s = SubnetTypePrivate \<and> lb_Type lbSpec = LoadBalancerTypeInternal"

definition knownSubnetType :: "ClusterSubnetSpec \<Rightarrow> bool" where
  "knownSubnetType s \<longleftrightarrow>
     subnet_Type s = SubnetTypePublic \<or> subnet_Type s = SubnetTypeUtility
     \<or> subnet_Type s = SubnetTypePrivate"

text \<open>
  The invariant of \<^verbatim>\<open>subnetsByZone\<close>: one entry per zone, no entry with an empty
  slice, and in the slice of a zone only compatible subnets of the cluster in that zone.
\<close>

definition wfZoneMap ::
    "LoadBalancerAccessSpec \<Rightarrow> ClusterSubnetSpec list \<Rightarrow> (string \<times> ClusterSubnetSpec list) list
     \<Rightarrow> bool" where
  "wfZoneMap lbSpec subnets m \<longleftrightarrow>
     distinct (map fst m) \<and>
     (\<forall>(z, ss) \<in> set m. ss \<noteq> [] \<and>
        (\<forall>s \<in> set ss. s \<in> set subnets \<and> compatible lbSpec s \<and> subnet_Zone s = z))"

subsection \<open>What a run emits\<close>

text \<open>
  Names for the statements below. \<open>chosenLinks\<close> is what the second loop appends for
  the entries of the map when no call panics; \<open>emitted\<close> is the sequence of the tasks
  that \<^verbatim>\<open>Build\<close> adds, in the order of its \<^verbatim>\<open>AddTask\<close> calls, once the subnets
  are chosen; \<open>accepted\<close> says that the configuration passes both guards and both
  validations of \<^verbatim>\<open>Build\<close>; \<open>emittedBy\<close> is the tasks that one run has added to
  the context.
\<close>

definition chosenLinks ::
    "APILoadBalancerBuilder \<Rightarrow> (string \<times> ClusterSubnetSpec list) list \<Rightarrow> SubnetLink list" where
  "chosenLinks b m =
     map (\<lambda>(zone, subnets). LinkToSubnet (projr (chooseBestSubnetForELB b zone subnets))) m"

definition emitted ::
    "APILoadBalancerBuilder \<Rightarrow> LoadBalancerAccessSpec \<Rightarrow> SubnetLink list \<Rightarrow> task list" where
  "emitted b lbSpec links =
     [LoadBalancerTask ((newLoadBalancer b lbSpec links)
        \<lparr>elb_Scheme := (if lb_Type lbSpec = LoadBalancerTypeInternal
                         then Some ''internal'' else None)\<rparr>),
      elbSecurityGroup b, elbEgressRule]
     @ map apiAccessRule (spec_KubernetesAPIAccess (Cluster b))
     @ [elbToMasterRule]
     @ map masterAttachment (MasterInstanceGroups b)"

definition accepted :: "APILoadBalancerBuilder \<Rightarrow> bool" where
  "accepted b \<longleftrightarrow>
     UseLoadBalancerForAPI b \<and>
     (case spec_LoadBalancer (Cluster b) of
        None \<Rightarrow> False
      | Some lbSpec \<Rightarrow>
          lb_Type lbSpec = LoadBalancerTypeInternal \<or> lb_Type lbSpec = LoadBalancerTypePublic) \<and>
     list_all knownSubnetType (spec_Subnets (Cluster b))"

definition emittedBy ::
    "(nat \<Rightarrow> nat) \<Rightarrow> APILoadBalancerBuilder \<Rightarrow> ModelBuilderContext \<Rightarrow> task list" where
  "emittedBy rng b c =
     (case Build rng b c of Inl p \<Rightarrow> [] | Inr (err, c') \<Rightarrow> drop (length c) c')"




fun loadBalancerSubnets :: "task list \<Rightarrow> SubnetLink list list" where
  "loadBalancerSubnets [] = []"
| "loadBalancerSubnets (LoadBalancerTask t # ts) = elb_Subnets t # loadBalancerSubnets ts"
| "loadBalancerSubnets (t # ts) = loadBalancerSubnets ts"

subsection \<open>Example clusters\<close>

text \<open>
  The cluster of the end-to-end scenario: subnet A (utility) and subnet B (public) in
  zone us-east-1a, a public load balancer, one master instance group in subnet B, and
  two CIDRs with access to the API. Subnet C is in another zone; D (public) and U
  (utility) are two more subnets of zone us-east-1a, and \<open>masterU\<close> is a master
  instance group in subnet U.
\<close>

definition subnetA :: ClusterSubnetSpec where
  "subnetA = \<lparr>subnet_Name = ''A'', subnet_Zone = ''us-east-1a'', subnet_Type = SubnetTypeUtility\<rparr>"

definition subnetB :: ClusterSubnetSpec where
  "subnetB = \<lparr>subnet_Name = ''B'', subnet_Zone = ''us-east-1a'', subnet_Type = SubnetTypePublic\<rparr>"

definition subnetC :: ClusterSubnetSpec where
  "subnetC = \<lparr>subnet_Name = ''C'', subnet_Zone = ''us-east-1b'', subnet_Type = SubnetTypePublic\<rparr>"

definition subnetD :: ClusterSubnetSpec where
  "subnetD = \<lparr>subnet_Name = ''D'', subnet_Zone = ''us-east-1a'', subnet_Type = SubnetTypePublic\<rparr>"

definition subnetU :: ClusterSubnetSpec where
  "subnetU = \<lparr>subnet_Name = ''U'', subnet_Zone = ''us-east-1a'', subnet_Type = SubnetTypeUtility\<rparr>"

definition masterU :: InstanceGroup where
  "masterU = \<lparr>ig_Name = ''master-us-east-1a-2'', ig_Subnets = [''U'']\<rparr>"

definition masterB :: InstanceGroup where
  "masterB = \<lparr>ig_Name = ''master-us-east-1a'', ig_Subnets = [''B'']\<rparr>"

definition publicLB :: LoadBalancerAccessSpec where
  "publicLB = \<lparr>lb_Type = LoadBalancerTypePublic, lb_IdleTimeoutSeconds = None\<rparr>"

definition exampleBuilder :: APILoadBalancerBuilder where
  "exampleBuilder =
     \<lparr>Cluster = \<lparr>spec_LoadBalancer = Some publicLB,
                 spec_Subnets = [subnetA, subnetB],
                 spec_KubernetesAPIAccess = [''10.0.0.0/8'', ''192.168.1.0/24'']\<rparr>,
      UseLoadBalancerForAPI = True,
      MasterInstanceGroups = [masterB],
      ClusterName = ''example.k8s.local'',
      GetELBName32 = (\<lambda>prefix. prefix @ ''-example-k8s-local''),
      ELBSecurityGroupName = (\<lambda>prefix. prefix @ ''-elb.example.k8s.local'')\<rparr>"

text \<open>The same cluster with other subnets, other CIDRs, and another load balancer.\<close>

definition withSubnets :: "ClusterSubnetSpec list \<Rightarrow> APILoadBalancerBuilder \<Rightarrow> APILoadBalancerBuilder" where
  "withSubnets subnets b = b\<lparr>Cluster := (Cluster b)\<lparr>spec_Subnets := subnets\<rparr>\<rparr>"


definition withLoadBalancer ::
    "LoadBalancerAccessSpec option \<Rightarrow> APILoadBalancerBuilder \<Rightarrow> APILoadBalancerBuilder" where
  "withLoadBalancer lb b = b\<lparr>Cluster := (Cluster b)\<lparr>spec_LoadBalancer := lb\<rparr>\<rparr>"

section \<open>Auxiliary facts\<close>

lemma foldl_AddTask: "foldl (\<lambda>c x. AddTask c (f x)) c xs = c @ map f xs"
  by (induction xs arbitrary: c) (simp_all add: AddTask_def)

lemma mset_insertAt: "mset (insertAt i x ys) = add_mset x (mset ys)"
proof -
  have "mset ys = mset (take i ys) + mset (drop i ys)"
    by (metis append_take_drop_id mset_append)
  then show ?thesis by (simp add: insertAt_def)
qed

lemma mset_rangeOrder: "mset (rangeOrder rng xs) = mset xs"
  by (induction xs) (simp_all add: mset_insertAt)

lemma mset_insertSorted: "mset (insertSorted lt x ys) = add_mset x (mset ys)"
  by (induction ys) simp_all

lemma mset_sort_Sort: "mset (sort_Sort lt xs) = mset xs"
  by (induction xs) (simp_all add: mset_insertSorted)

lemma length_sort_Sort: "length (sort_Sort lt xs) = length xs"
  using mset_sort_Sort [of lt xs] by (metis size_mset)

lemma set_sort_Sort: "set (sort_Sort lt xs) = set xs"
  using mset_sort_Sort [of lt xs] by (metis set_mset_mset)

lemma chooseBest_eq:
  "chooseBestSubnetForELB b zone subnets =
     (if subnets = [] then Inr None
      else if length subnets = 1 then Inr (Some (hd subnets))
      else Inr (Some (subnet (hd (sort_Sort Less (map (scoreSubnet (migSubnets b)) subnets))))))"
proof -
  let ?ss = "sort_Sort Less (map (scoreSubnet (migSubnets b)) subnets)"
  have len: "length ?ss = length subnets" by (simp add: length_sort_Sort)
  consider "subnets = []" | "length subnets = 1" | "2 \<le> length subnets"
    by (cases subnets) (auto simp: Suc_le_eq)
  then show ?thesis
  proof cases
    case 1
    then show ?thesis by (simp add: chooseBestSubnetForELB_def)
  next
    case 2
    then have "subnets \<noteq> []" by auto
    with 2 show ?thesis
      by (simp add: chooseBestSubnetForELB_def index_def hd_conv_nth)
  next
    case 3
    with len have "0 < length ?ss" "1 < length ?ss" "?ss \<noteq> []" by auto
    moreover from 3 have "subnets \<noteq> []" "length subnets \<noteq> 1" by auto
    ultimately show ?thesis
      by (simp add: chooseBestSubnetForELB_def index_def Let_def hd_conv_nth)
  qed
qed

lemma chooseBest_no_panic: "chooseBestSubnetForELB b zone subnets \<noteq> Inl p"
  by (simp add: chooseBest_eq)

lemma types_distinct:
  "SubnetTypePublic \<noteq> SubnetTypePrivate" "SubnetTypeUtility \<noteq> SubnetTypePrivate"
  "SubnetTypePublic \<noteq> SubnetTypeUtility" "LoadBalancerTypeInternal \<noteq> LoadBalancerTypePublic"
  by (simp_all add: SubnetTypePublic_def SubnetTypePrivate_def SubnetTypeUtility_def
      LoadBalancerTypeInternal_def LoadBalancerTypePublic_def)

lemma Less_asym: "Less a b \<Longrightarrow> \<not> Less b a"
  by (auto simp: Less_def split: if_splits)

lemma Less_neg_trans: "\<not> Less b a \<Longrightarrow> \<not> Less c b \<Longrightarrow> \<not> Less c a"
  by (auto simp: Less_def split: if_splits)

lemma set_insertSorted: "set (insertSorted lt x ys) = insert x (set ys)"
  by (induction ys) auto

lemma sorted_insertSorted:
  "sorted_wrt (\<lambda>a b. \<not> Less b a) ys \<Longrightarrow> sorted_wrt (\<lambda>a b. \<not> Less b a) (insertSorted Less x ys)"
proof (induction ys)
  case Nil
  then show ?case by simp
next
  case (Cons y ys)
  show ?case
  proof (cases "Less x y")
    case True
    then have "\<not> Less y x" by (rule Less_asym)
    moreover have "\<not> Less z x" if "z \<in> set ys" for z
      using Cons.prems that True Less_asym Less_neg_trans by (metis sorted_wrt.simps(2))
    ultimately show ?thesis using True Cons.prems by auto
  next
    case False
    with Cons show ?thesis by (auto simp: set_insertSorted)
  qed
qed

lemma sorted_sort_Sort: "sorted_wrt (\<lambda>a b. \<not> Less b a) (sort_Sort Less xs)"
  by (induction xs) (simp_all add: sorted_insertSorted)

lemma hd_sorted_least:
  assumes "sorted_wrt (\<lambda>a b. \<not> Less b a) ys" and "x \<in> set ys"
  shows "\<not> Less x (hd ys)"
  using assms by (cases ys) (auto simp: Less_def)

lemma hd_sort_Sort:
  assumes "xs \<noteq> []"
  shows "hd (sort_Sort Less xs) \<in> set xs"
    and "x \<in> set xs \<Longrightarrow> \<not> Less x (hd (sort_Sort Less xs))"
proof -
  from assms have "sort_Sort Less xs \<noteq> []"
    using length_sort_Sort [of Less xs] by auto
  then show "hd (sort_Sort Less xs) \<in> set xs"
    using set_sort_Sort [of Less xs] hd_in_set by blast
  show "x \<in> set xs \<Longrightarrow> \<not> Less x (hd (sort_Sort Less xs))"
    using hd_sorted_least [OF sorted_sort_Sort, of x xs] by (simp add: set_sort_Sort)
qed

lemma chooseBest_best:
  assumes "subnets \<noteq> []"
  shows "\<exists>best \<in> set subnets. chooseBestSubnetForELB b zone subnets = Inr (Some best)
           \<and> (length subnets \<noteq> 1 \<longrightarrow>
                (\<forall>s \<in> set subnets. \<not> Less (scoreSubnet (migSubnets b) s) (scoreSubnet (migSubnets b) best)))"
proof (cases "length subnets = 1")
  case True
  with assms show ?thesis by (simp add: chooseBest_eq)
next
  case False
  let ?f = "scoreSubnet (migSubnets b)"
  let ?h = "hd (sort_Sort Less (map ?f subnets))"
  from assms have ne: "map ?f subnets \<noteq> []" by simp
  from hd_sort_Sort(1) [OF ne] obtain best where best: "best \<in> set subnets" "?h = ?f best"
    by auto
  then have sb: "subnet ?h = best" by (simp add: scoreSubnet_def)
  have "\<not> Less (?f s) (?f best)" if "s \<in> set subnets" for s
    using hd_sort_Sort(2) [OF ne, of "?f s"] that best by simp
  with best sb assms False show ?thesis
    by (auto simp: chooseBest_eq)
qed

lemma keys_mapAppend:
  "map fst (mapAppend k v m) = (if k \<in> fst ` set m then map fst m else map fst m @ [k])"
proof (induction m)
  case Nil
  then show ?case by simp
next
  case (Cons e m)
  obtain k' vs where e: "e = (k', vs)" by (cases e)
  show ?case
  proof (cases "k' = k")
    case True
    then show ?thesis by (simp add: e)
  next
    case False
    then show ?thesis using Cons.IH by (simp add: e)
  qed
qed

lemma distinct_mapAppend: "distinct (map fst m) \<Longrightarrow> distinct (map fst (mapAppend k v m))"
  by (simp add: keys_mapAppend)

lemma foldl_snoc: "foldl (\<lambda>c x. c @ [f x]) c xs = c @ map f xs"
  by (induction xs arbitrary: c) simp_all

lemma entries_mapAppend:
  assumes "(z, ss) \<in> set (mapAppend k v m)"
  shows "(z, ss) \<in> set m \<or> (z = k \<and> (ss = [v] \<or> (\<exists>vs. (k, vs) \<in> set m \<and> ss = vs @ [v])))"
  using assms
proof (induction m)
  case Nil
  then show ?case by simp
next
  case (Cons e m)
  obtain k' vs where e: "e = (k', vs)" by (cases e)
  show ?case
  proof (cases "k' = k")
    case True
    with Cons.prems show ?thesis by (auto simp: e)
  next
    case False
    with Cons.prems have "(z, ss) = (k', vs) \<or> (z, ss) \<in> set (mapAppend k v m)"
      by (simp add: e)
    then show ?thesis
    proof
      assume "(z, ss) = (k', vs)"
      then show ?thesis by (simp add: e)
    next
      assume "(z, ss) \<in> set (mapAppend k v m)"
      from Cons.IH [OF this] show ?thesis by (auto simp: e)
    qed
  qed
qed

lemma wfZoneMap_mapAppend:
  assumes wf: "wfZoneMap lbSpec subnets m" and s: "s \<in> set subnets" "compatible lbSpec s"
  shows "wfZoneMap lbSpec subnets (mapAppend (subnet_Zone s) s m)"
proof -
  have d: "distinct (map fst (mapAppend (subnet_Zone s) s m))"
    using wf by (simp add: wfZoneMap_def distinct_mapAppend)
  have old: "ss \<noteq> [] \<and> (\<forall>t \<in> set ss. t \<in> set subnets \<and> compatible lbSpec t \<and> subnet_Zone t = z)"
    if "(z, ss) \<in> set m" for z ss
    using wf that by (auto simp: wfZoneMap_def)
  have new: "ss \<noteq> [] \<and> (\<forall>t \<in> set ss. t \<in> set subnets \<and> compatible lbSpec t \<and> subnet_Zone t = z)"
    if "(z, ss) \<in> set (mapAppend (subnet_Zone s) s m)" for z ss
  proof -
    from entries_mapAppend [OF that]
    consider "(z, ss) \<in> set m" | "z = subnet_Zone s" "ss = [s]"
      | vs where "z = subnet_Zone s" "(subnet_Zone s, vs) \<in> set m" "ss = vs @ [s]"
      by blast
    then show ?thesis
    proof cases
      case 1
      then show ?thesis by (rule old)
    next
      case 2
      with s show ?thesis by simp
    next
      case 3
      with old [OF 3(2)] s show ?thesis by auto
    qed
  qed
  show ?thesis
    unfolding wfZoneMap_def using d new by blast
qed

lemma groupSubnetsByZone_step:
  "groupSubnetsByZone lbSpec (s # rest) m =
     (if \<not> knownSubnetType s
      then Inl (Errorf_subnet_had_unknown_type (subnet_Name s) (subnet_Type s))
      else if compatible lbSpec s
      then groupSubnetsByZone lbSpec rest (mapAppend (subnet_Zone s) s m)
      else groupSubnetsByZone lbSpec rest m)"
  using types_distinct by (simp add: knownSubnetType_def compatible_def)

lemma groupSubnetsByZone_wf:
  assumes "groupSubnetsByZone lbSpec xs m = Inr m'"
    and "wfZoneMap lbSpec subnets m" and "set xs \<subseteq> set subnets"
  shows "wfZoneMap lbSpec subnets m'"
  using assms
proof (induction xs arbitrary: m)
  case Nil
  then show ?case by simp
next
  case (Cons s rest)
  from Cons.prems(1) have known: "knownSubnetType s"
    by (simp add: groupSubnetsByZone_step del: groupSubnetsByZone.simps split: if_splits)
  from Cons.prems(3) have sub: "s \<in> set subnets" "set rest \<subseteq> set subnets" by simp_all
  show ?case
  proof (cases "compatible lbSpec s")
    case True
    then have "wfZoneMap lbSpec subnets (mapAppend (subnet_Zone s) s m)"
      using Cons.prems(2) sub(1) by (simp add: wfZoneMap_mapAppend)
    moreover from True known Cons.prems(1)
    have "groupSubnetsByZone lbSpec rest (mapAppend (subnet_Zone s) s m) = Inr m'"
      by (simp add: groupSubnetsByZone_step del: groupSubnetsByZone.simps)
    ultimately show ?thesis using Cons.IH sub(2) by blast
  next
    case False
    with known Cons.prems(1) have "groupSubnetsByZone lbSpec rest m = Inr m'"
      by (simp add: groupSubnetsByZone_step del: groupSubnetsByZone.simps)
    then show ?thesis using Cons.IH Cons.prems(2) sub(2) by blast
  qed
qed

lemma groupSubnetsByZone_known:
  assumes "\<forall>s \<in> set xs. knownSubnetType s"
  shows "\<exists>m'. groupSubnetsByZone lbSpec xs m = Inr m'"
  using assms
proof (induction xs arbitrary: m)
  case Nil
  then show ?case by simp
next
  case (Cons s rest)
  then show ?case
    by (simp add: groupSubnetsByZone_step del: groupSubnetsByZone.simps)
qed

lemma groupSubnetsByZone_unknown:
  assumes "\<exists>s \<in> set xs. \<not> knownSubnetType s"
  shows "\<exists>s \<in> set xs. \<not> knownSubnetType s \<and>
           groupSubnetsByZone lbSpec xs m
             = Inl (Errorf_subnet_had_unknown_type (subnet_Name s) (subnet_Type s))"
  using assms
proof (induction xs arbitrary: m)
  case Nil
  then show ?case by simp
next
  case (Cons s rest)
  show ?case
  proof (cases "knownSubnetType s")
    case True
    with Cons.prems have ex: "\<exists>s \<in> set rest. \<not> knownSubnetType s" by auto
    show ?thesis
    proof (cases "compatible lbSpec s")
      case c: True
      from Cons.IH [OF ex, of "mapAppend (subnet_Zone s) s m"] True c show ?thesis
        by (auto simp add: groupSubnetsByZone_step simp del: groupSubnetsByZone.simps)
    next
      case c: False
      from Cons.IH [OF ex, of m] True c show ?thesis
        by (auto simp add: groupSubnetsByZone_step simp del: groupSubnetsByZone.simps)
    qed
  next
    case False
    then show ?thesis
      by (auto simp add: groupSubnetsByZone_step simp del: groupSubnetsByZone.simps)
  qed
qed

lemma groupSubnetsByZone_none_compatible:
  assumes "\<forall>s \<in> set xs. knownSubnetType s \<and> \<not> compatible lbSpec s"
  shows "groupSubnetsByZone lbSpec xs m = Inr m"
  using assms
proof (induction xs arbitrary: m)
  case Nil
  then show ?case by simp
next
  case (Cons s rest)
  then show ?case
    by (simp add: groupSubnetsByZone_step del: groupSubnetsByZone.simps)
qed

lemma chooseSubnets_eq:
  "chooseSubnets b m acc =
     Inr (acc @ map (\<lambda>(zone, subnets). LinkToSubnet (projr (chooseBestSubnetForELB b zone subnets))) m)"
proof (induction m arbitrary: acc)
  case Nil
  then show ?case by simp
next
  case (Cons e m)
  obtain zone subnets where e: "e = (zone, subnets)" by (cases e)
  obtain r where "chooseBestSubnetForELB b zone subnets = Inr r"
    using chooseBest_no_panic [of b zone subnets]
    by (cases "chooseBestSubnetForELB b zone subnets") auto
  then show ?case by (simp add: e Cons.IH)
qed

lemma buildTasks_eq:
  assumes "lb_Type lbSpec = LoadBalancerTypeInternal \<or> lb_Type lbSpec = LoadBalancerTypePublic"
  shows "buildTasks b lbSpec links c =
    (None, c @ [LoadBalancerTask ((newLoadBalancer b lbSpec links)
                  \<lparr>elb_Scheme := (if lb_Type lbSpec = LoadBalancerTypeInternal
                                   then Some ''internal'' else None)\<rparr>),
                elbSecurityGroup b, elbEgressRule]
             @ map apiAccessRule (spec_KubernetesAPIAccess (Cluster b))
             @ [elbToMasterRule]
             @ map masterAttachment (MasterInstanceGroups b))"
  using assms by (simp add: buildTasks_def Let_def foldl_snoc AddTask_def)

lemma set_rangeOrder: "set (rangeOrder rng xs) = set xs"
  using mset_rangeOrder [of rng xs] by (metis set_mset_mset)

lemma wfZoneMap_empty: "wfZoneMap lbSpec subnets []"
  by (simp add: wfZoneMap_def)

lemma wfZoneMap_entry:
  assumes "wfZoneMap lbSpec subnets m" and "(z, ss) \<in> set m"
  shows "ss \<noteq> []" and "set ss \<subseteq> set subnets" and "\<forall>s \<in> set ss. compatible lbSpec s"
    and "\<forall>s \<in> set ss. subnet_Zone s = z"
  using assms by (auto simp: wfZoneMap_def)

lemma chosenLinks_member:
  assumes wf: "wfZoneMap lbSpec subnets m" and l: "l \<in> set (chosenLinks b (rangeOrder rng m))"
  shows "\<exists>s \<in> set subnets. l = LinkToSubnet (Some s) \<and> compatible lbSpec s"
proof -
  from l obtain z ss where e: "(z, ss) \<in> set m"
    and l': "l = LinkToSubnet (projr (chooseBestSubnetForELB b z ss))"
    by (auto simp: chosenLinks_def set_rangeOrder)
  from wfZoneMap_entry [OF wf e] have ne: "ss \<noteq> []" and sub: "set ss \<subseteq> set subnets"
    and comp: "\<forall>s \<in> set ss. compatible lbSpec s" by simp_all
  from chooseBest_best [OF ne, of b z] obtain best where
    "best \<in> set ss" "chooseBestSubnetForELB b z ss = Inr (Some best)" by blast
  with l' sub comp show ?thesis by auto
qed

lemma Build_eq:
  assumes "UseLoadBalancerForAPI b" and "spec_LoadBalancer (Cluster b) = Some lbSpec"
    and "lb_Type lbSpec = LoadBalancerTypeInternal \<or> lb_Type lbSpec = LoadBalancerTypePublic"
    and "groupSubnetsByZone lbSpec (spec_Subnets (Cluster b)) [] = Inr m"
  shows "Build rng b c = Inr (None, c @ emitted b lbSpec (chosenLinks b (rangeOrder rng m)))"
  using assms
  by (simp add: Build_def chooseSubnets_eq buildTasks_eq emitted_def chosenLinks_def)

lemma accepted_Build:
  assumes "accepted b"
  obtains lbSpec m where "spec_LoadBalancer (Cluster b) = Some lbSpec"
    and "lb_Type lbSpec = LoadBalancerTypeInternal \<or> lb_Type lbSpec = LoadBalancerTypePublic"
    and "groupSubnetsByZone lbSpec (spec_Subnets (Cluster b)) [] = Inr m"
    and "wfZoneMap lbSpec (spec_Subnets (Cluster b)) m"
    and "\<And>rng c. Build rng b c = Inr (None, c @ emitted b lbSpec (chosenLinks b (rangeOrder rng m)))"
proof -
  from assms obtain lbSpec where lb: "spec_LoadBalancer (Cluster b) = Some lbSpec"
    and ty: "lb_Type lbSpec = LoadBalancerTypeInternal \<or> lb_Type lbSpec = LoadBalancerTypePublic"
    by (auto simp: accepted_def split: option.splits)
  from assms have "\<forall>s \<in> set (spec_Subnets (Cluster b)). knownSubnetType s"
    by (simp add: accepted_def list_all_iff)
  from groupSubnetsByZone_known [OF this, of lbSpec "[]"] obtain m
    where grp: "groupSubnetsByZone lbSpec (spec_Subnets (Cluster b)) [] = Inr m" by blast
  have wf: "wfZoneMap lbSpec (spec_Subnets (Cluster b)) m"
    by (rule groupSubnetsByZone_wf [OF grp wfZoneMap_empty]) simp
  from assms have use: "UseLoadBalancerForAPI b" by (simp add: accepted_def)
  show ?thesis
    by (rule that [OF lb ty grp wf]) (rule Build_eq [OF use lb ty grp])
qed

lemma emittedBy_accepted:
  assumes "Build rng b c = Inr (r, c @ ts)"
  shows "emittedBy rng b c = ts"
  using assms by (simp add: emittedBy_def)

section \<open>Properties\<close>

text \<open>
  C5 (no-op guard). When the use of a load balancer for the API is not enabled, or the
  LoadBalancer configuration is nil, Build returns nil and leaves the context as it was:
  no task is added.
\<close>

theorem Build_noop_guard:
  assumes "\<not> UseLoadBalancerForAPI b \<or> spec_LoadBalancer (Cluster b) = None"
  shows "Build rng b c = Inr (None, c)"
  using assms by (auto simp: Build_def)

theorem Build_noop_guard_witness:
  "\<not> UseLoadBalancerForAPI (exampleBuilder\<lparr>UseLoadBalancerForAPI := False\<rparr>)
   \<and> Build (\<lambda>n. 0) (exampleBuilder\<lparr>UseLoadBalancerForAPI := False\<rparr>) [] = Inr (None, [])
   \<and> spec_LoadBalancer (Cluster (withLoadBalancer None exampleBuilder)) = None
   \<and> Build (\<lambda>n. 0) (withLoadBalancer None exampleBuilder) [elbEgressRule]
       = Inr (None, [elbEgressRule])"
  using Build_noop_guard [where b = "exampleBuilder\<lparr>UseLoadBalancerForAPI := False\<rparr>"
      and rng = "\<lambda>n. 0" and c = "[]"]
    Build_noop_guard [where b = "withLoadBalancer None exampleBuilder"
      and rng = "\<lambda>n. 0" and c = "[elbEgressRule]"]
  by (simp add: withLoadBalancer_def)

lemma not_Less_iff:
  "\<not> Less (scoreSubnet migs s) (scoreSubnet migs t) \<longleftrightarrow>
     score (scoreSubnet migs s) < score (scoreSubnet migs t)
     \<or> score (scoreSubnet migs s) = score (scoreSubnet migs t) \<and> subnet_Name t \<le> subnet_Name s"
  by (auto simp: Less_def scoreSubnet_def)

lemma example_scores:
  "score (scoreSubnet (migSubnets exampleBuilder) subnetA) = 1"
  "score (scoreSubnet (migSubnets exampleBuilder) subnetB) = 1"
  by (simp_all add: scoreSubnet_def migSubnets_def exampleBuilder_def subnetA_def subnetB_def
      masterB_def SubnetTypeUtility_def SubnetTypePublic_def)

lemma example_choose:
  "chooseBestSubnetForELB exampleBuilder zone [subnetA, subnetB] = Inr (Some subnetA)"
  "chooseBestSubnetForELB exampleBuilder zone [subnetB, subnetA] = Inr (Some subnetA)"
  by (simp_all add: chooseBest_eq Less_def scoreSubnet_def migSubnets_def exampleBuilder_def
      subnetA_def subnetB_def masterB_def SubnetTypeUtility_def SubnetTypePublic_def)

text \<open>
  C2 (tie-break). For every zone and every list of two or more candidate subnets with
  pairwise distinct names (a subnet is identified by its name), chooseBestSubnetForELB
  returns a candidate of the highest score whose name is lexically smaller than the
  name of every other candidate of that score; and it returns the same subnet for every
  permutation of the list. A tie at the top is the case where another candidate has the
  score of the one returned.
\<close>

theorem chooseBest_tie_break:
  assumes len: "2 \<le> length subnets" and names: "inj_on subnet_Name (set subnets)"
  shows "\<exists>best \<in> set subnets.
           chooseBestSubnetForELB b zone subnets = Inr (Some best)
           \<and> (\<forall>s \<in> set subnets.
                 score (scoreSubnet (migSubnets b) s) \<le> score (scoreSubnet (migSubnets b) best))
           \<and> (\<forall>s \<in> set subnets.
                 s \<noteq> best
                 \<and> score (scoreSubnet (migSubnets b) s) = score (scoreSubnet (migSubnets b) best)
                 \<longrightarrow> subnet_Name best < subnet_Name s)
           \<and> (\<forall>subnets'. mset subnets' = mset subnets
                 \<longrightarrow> chooseBestSubnetForELB b zone subnets' = Inr (Some best))"
proof -
  let ?f = "scoreSubnet (migSubnets b)"
  from len have ne: "subnets \<noteq> []" and l1: "length subnets \<noteq> 1" by auto
  from chooseBest_best [OF ne, of b zone] l1 obtain best where
    best: "best \<in> set subnets" "chooseBestSubnetForELB b zone subnets = Inr (Some best)"
    and least: "\<And>s. s \<in> set subnets \<Longrightarrow> \<not> Less (?f s) (?f best)"
    by blast
  have sc: "score (?f s) \<le> score (?f best)" if "s \<in> set subnets" for s
    using least [OF that] by (auto simp: not_Less_iff)
  have nm: "subnet_Name best < subnet_Name s"
    if "s \<in> set subnets" "s \<noteq> best" "score (?f s) = score (?f best)" for s
  proof -
    from least [OF that(1)] that(3) have "subnet_Name best \<le> subnet_Name s"
      by (auto simp: not_Less_iff)
    moreover from names that(1,2) best(1) have "subnet_Name best \<noteq> subnet_Name s"
      by (auto dest: inj_onD)
    ultimately show ?thesis by simp
  qed
  have perm: "chooseBestSubnetForELB b zone subnets' = Inr (Some best)"
    if p: "mset subnets' = mset subnets" for subnets'
  proof -
    from p have st: "set subnets' = set subnets" by (metis set_mset_mset)
    from p have "length subnets' = length subnets" by (metis size_mset)
    with len have ne': "subnets' \<noteq> []" and l1': "length subnets' \<noteq> 1" by auto
    from chooseBest_best [OF ne', of b zone] l1' obtain best' where
      best': "best' \<in> set subnets'" "chooseBestSubnetForELB b zone subnets' = Inr (Some best')"
      and least': "\<And>s. s \<in> set subnets' \<Longrightarrow> \<not> Less (?f s) (?f best')"
      by blast
    from best'(1) st have in': "best' \<in> set subnets" by simp
    from least [OF in'] least' [of best] best(1) st
    have "subnet_Name best' = subnet_Name best"
      by (auto simp: not_Less_iff)
    with names in' best(1) have "best' = best" by (auto dest: inj_onD)
    with best'(2) show ?thesis by simp
  qed
  from best sc nm perm show ?thesis by blast
qed

theorem chooseBest_tie_break_witness:
  "2 \<le> length [subnetA, subnetB]
   \<and> inj_on subnet_Name (set [subnetA, subnetB])
   \<and> score (scoreSubnet (migSubnets exampleBuilder) subnetA)
       = score (scoreSubnet (migSubnets exampleBuilder) subnetB)
   \<and> subnet_Name subnetA < subnet_Name subnetB
   \<and> chooseBestSubnetForELB exampleBuilder ''us-east-1a'' [subnetA, subnetB] = Inr (Some subnetA)
   \<and> chooseBestSubnetForELB exampleBuilder ''us-east-1a'' [subnetB, subnetA] = Inr (Some subnetA)"
proof -
  have h1: "2 \<le> length [subnetA, subnetB]" by simp
  have h2: "inj_on subnet_Name (set [subnetA, subnetB])"
    by (simp add: subnetA_def subnetB_def)
  have p: "mset [subnetB, subnetA] = mset [subnetA, subnetB]" by simp
  from chooseBest_tie_break [OF h1 h2, of exampleBuilder "''us-east-1a''"] obtain best where
    c1: "chooseBestSubnetForELB exampleBuilder ''us-east-1a'' [subnetA, subnetB] = Inr (Some best)"
    and c2: "\<And>subnets'. mset subnets' = mset [subnetA, subnetB] \<Longrightarrow>
      chooseBestSubnetForELB exampleBuilder ''us-east-1a'' subnets' = Inr (Some best)"
    by blast
  from c1 have b: "best = subnetA" by (simp add: example_choose)
  from c2 [OF p] b c1 h1 h2 show ?thesis
    by (simp add: example_scores) (simp add: subnetA_def subnetB_def)
qed

text \<open>
  C4 (scoring). A subnet whose name is among the subnets of the master instance groups
  and whose type is utility scores 2, a subnet with exactly one of the two properties
  scores 1, and a subnet with neither scores 0. No candidate has a higher score than the
  subnet that chooseBestSubnetForELB returns, so a subnet of a higher score is always
  chosen over one of a lower score.
\<close>

theorem scoring_monotone:
  "(subnet_Name s \<in> migSubnets b \<and> subnet_Type s = SubnetTypeUtility
      \<longrightarrow> score (scoreSubnet (migSubnets b) s) = 2)
   \<and> ((subnet_Name s \<in> migSubnets b) \<noteq> (subnet_Type s = SubnetTypeUtility)
      \<longrightarrow> score (scoreSubnet (migSubnets b) s) = 1)
   \<and> (subnet_Name s \<notin> migSubnets b \<and> subnet_Type s \<noteq> SubnetTypeUtility
      \<longrightarrow> score (scoreSubnet (migSubnets b) s) = 0)
   \<and> (\<forall>best. chooseBestSubnetForELB b zone subnets = Inr (Some best)
      \<longrightarrow> (\<forall>t \<in> set subnets.
             score (scoreSubnet (migSubnets b) t) \<le> score (scoreSubnet (migSubnets b) best)))"
proof -
  have sel: "score (scoreSubnet (migSubnets b) t) \<le> score (scoreSubnet (migSubnets b) best)"
    if c: "chooseBestSubnetForELB b zone subnets = Inr (Some best)" and t: "t \<in> set subnets"
    for best t
  proof (cases "length subnets = 1")
    case True
    then obtain x where "subnets = [x]" by (cases subnets) auto
    with c t show ?thesis by (simp add: chooseBest_eq)
  next
    case False
    from t have ne: "subnets \<noteq> []" by auto
    from chooseBest_best [OF ne, of b zone] False c
    have "\<not> Less (scoreSubnet (migSubnets b) t) (scoreSubnet (migSubnets b) best)"
      using t by auto
    then show ?thesis by (auto simp: not_Less_iff)
  qed
  have "score (scoreSubnet (migSubnets b) s) =
          (if subnet_Name s \<in> migSubnets b then 1 else 0)
          + (if subnet_Type s = SubnetTypeUtility then 1 else 0)"
    by (simp add: scoreSubnet_def)
  with sel show ?thesis by auto
qed

theorem scoring_monotone_witness:
  "score (scoreSubnet (migSubnets (exampleBuilder\<lparr>MasterInstanceGroups := [masterB, masterU]\<rparr>)) subnetU) = 2
   \<and> score (scoreSubnet (migSubnets (exampleBuilder\<lparr>MasterInstanceGroups := [masterB, masterU]\<rparr>)) subnetA) = 1
   \<and> score (scoreSubnet (migSubnets (exampleBuilder\<lparr>MasterInstanceGroups := [masterB, masterU]\<rparr>)) subnetB) = 1
   \<and> score (scoreSubnet (migSubnets (exampleBuilder\<lparr>MasterInstanceGroups := [masterB, masterU]\<rparr>)) subnetD) = 0
   \<and> chooseBestSubnetForELB (exampleBuilder\<lparr>MasterInstanceGroups := [masterB, masterU]\<rparr>)
        ''us-east-1a'' [subnetD, subnetA, subnetU, subnetB] = Inr (Some subnetU)
   \<and> chooseBestSubnetForELB (exampleBuilder\<lparr>MasterInstanceGroups := [masterB, masterU]\<rparr>)
        ''us-east-1a'' [subnetD, subnetB] = Inr (Some subnetB)"
proof -
  let ?b = "exampleBuilder\<lparr>MasterInstanceGroups := [masterB, masterU]\<rparr>"
  have mig: "migSubnets ?b = {''B'', ''U''}"
    by (auto simp: migSubnets_def masterB_def masterU_def)
  have c1: "chooseBestSubnetForELB ?b ''us-east-1a'' [subnetD, subnetA, subnetU, subnetB]
              = Inr (Some subnetU)"
    by (simp add: chooseBest_eq mig Less_def scoreSubnet_def subnetA_def subnetB_def
        subnetD_def subnetU_def SubnetTypeUtility_def SubnetTypePublic_def)
  have c2: "chooseBestSubnetForELB ?b ''us-east-1a'' [subnetD, subnetB] = Inr (Some subnetB)"
    by (simp add: chooseBest_eq mig Less_def scoreSubnet_def subnetB_def
        subnetD_def SubnetTypeUtility_def SubnetTypePublic_def)
  have n: "subnet_Name subnetU \<in> migSubnets ?b" "subnet_Type subnetU = SubnetTypeUtility"
    "subnet_Name subnetA \<notin> migSubnets ?b" "subnet_Type subnetA = SubnetTypeUtility"
    "subnet_Name subnetB \<in> migSubnets ?b" "subnet_Type subnetB \<noteq> SubnetTypeUtility"
    "subnet_Name subnetD \<notin> migSubnets ?b" "subnet_Type subnetD \<noteq> SubnetTypeUtility"
    by (simp_all add: mig subnetA_def subnetB_def subnetD_def subnetU_def
        SubnetTypeUtility_def SubnetTypePublic_def)
  from scoring_monotone [of subnetU ?b] scoring_monotone [of subnetA ?b]
    scoring_monotone [of subnetB ?b] scoring_monotone [of subnetD ?b] n c1 c2
  show ?thesis by simp
qed

text \<open>
  C9 (no empty candidate list, no index out of range). chooseBestSubnetForELB never
  panics: the index expressions on the sorted slice are evaluated only when there are
  two candidates or more. It returns nil only for an empty list. Every entry of
  subnetsByZone that the second loop of Build visits has a non-empty list, for which
  the call does not return nil; and Build never panics.
\<close>

theorem chooseBest_in_bounds_and_nonempty:
  "(\<forall>p. chooseBestSubnetForELB b zone subnets \<noteq> Inl p)
   \<and> (subnets \<noteq> [] \<longrightarrow> chooseBestSubnetForELB b zone subnets \<noteq> Inr None)
   \<and> (\<forall>m. groupSubnetsByZone lbSpec (spec_Subnets (Cluster b)) [] = Inr m
        \<longrightarrow> (\<forall>(z, ss) \<in> set (rangeOrder rng m).
               ss \<noteq> [] \<and> chooseBestSubnetForELB b z ss \<noteq> Inr None))
   \<and> (\<forall>p. Build rng b c \<noteq> Inl p)"
proof -
  have a: "chooseBestSubnetForELB b' z ss \<noteq> Inr None" if "ss \<noteq> []" for b' z ss
    using chooseBest_best [OF that, of b' z] by auto
  have g: "ss \<noteq> []"
    if "groupSubnetsByZone lbSpec (spec_Subnets (Cluster b)) [] = Inr m"
      and "(z, ss) \<in> set (rangeOrder rng m)" for m z ss
  proof -
    have "wfZoneMap lbSpec (spec_Subnets (Cluster b)) m"
      by (rule groupSubnetsByZone_wf [OF that(1) wfZoneMap_empty]) simp
    with that(2) show ?thesis by (auto simp: wfZoneMap_def set_rangeOrder)
  qed
  have p: "Build rng b c \<noteq> Inl p" for p
    by (simp add: Build_def chooseSubnets_eq split: option.splits sum.splits)
  from a g p chooseBest_no_panic show ?thesis by blast
qed

theorem chooseBest_in_bounds_and_nonempty_witness:
  "chooseBestSubnetForELB exampleBuilder ''us-east-1a'' [subnetA, subnetB] = Inr (Some subnetA)
   \<and> groupSubnetsByZone publicLB (spec_Subnets (Cluster exampleBuilder)) []
       = Inr [(''us-east-1a'', [subnetA, subnetB])]
   \<and> rangeOrder (\<lambda>n. 0) [(''us-east-1a'', [subnetA, subnetB])] = [(''us-east-1a'', [subnetA, subnetB])]
   \<and> [subnetA, subnetB] \<noteq> []
   \<and> chooseBestSubnetForELB exampleBuilder ''us-east-1a'' [subnetA, subnetB] \<noteq> Inr None
   \<and> Build (\<lambda>n. 0) exampleBuilder [] \<noteq> Inl (IndexOutOfRange 1 1)"
proof -
  have g: "groupSubnetsByZone publicLB (spec_Subnets (Cluster exampleBuilder)) []
             = Inr [(''us-east-1a'', [subnetA, subnetB])]"
    by (simp add: exampleBuilder_def publicLB_def subnetA_def subnetB_def
        SubnetTypeUtility_def SubnetTypePublic_def LoadBalancerTypePublic_def)
  have r: "rangeOrder (\<lambda>n. 0) [(''us-east-1a'', [subnetA, subnetB])]
             = [(''us-east-1a'', [subnetA, subnetB])]"
    by (simp add: insertAt_def)
  from chooseBest_in_bounds_and_nonempty
    [of exampleBuilder "''us-east-1a''" "[subnetA, subnetB]" publicLB "\<lambda>n. 0" "[]"] g r
  show ?thesis by (simp add: example_choose)
qed

lemma example_accepted: "accepted exampleBuilder"
  by (simp add: accepted_def exampleBuilder_def publicLB_def knownSubnetType_def
      subnetA_def subnetB_def)

text \<open>
  C6 (type rejection). Past the two guards, a load-balancer type that is neither internal
  nor public makes Build return the error that names this type; with a valid
  load-balancer type, a subnet whose type is none of public, utility and private makes
  Build return the error that names such a subnet and its type. In both cases the
  context is as it was: no task has been added.
\<close>

theorem Build_rejects_unknown_types:
  assumes "UseLoadBalancerForAPI b" and "spec_LoadBalancer (Cluster b) = Some lbSpec"
  shows "(lb_Type lbSpec \<noteq> LoadBalancerTypeInternal \<and> lb_Type lbSpec \<noteq> LoadBalancerTypePublic
            \<longrightarrow> Build rng b c
                  = Inr (Some (Errorf_unhandled_LoadBalancer_type (lb_Type lbSpec)), c))
         \<and> ((lb_Type lbSpec = LoadBalancerTypeInternal \<or> lb_Type lbSpec = LoadBalancerTypePublic)
              \<and> (\<exists>s \<in> set (spec_Subnets (Cluster b)). \<not> knownSubnetType s)
            \<longrightarrow> (\<exists>s \<in> set (spec_Subnets (Cluster b)). \<not> knownSubnetType s
                   \<and> Build rng b c
                       = Inr (Some (Errorf_subnet_had_unknown_type (subnet_Name s) (subnet_Type s)), c)))"
proof (intro conjI impI)
  assume "lb_Type lbSpec \<noteq> LoadBalancerTypeInternal \<and> lb_Type lbSpec \<noteq> LoadBalancerTypePublic"
  with assms show "Build rng b c
      = Inr (Some (Errorf_unhandled_LoadBalancer_type (lb_Type lbSpec)), c)"
    by (simp add: Build_def)
next
  assume a: "(lb_Type lbSpec = LoadBalancerTypeInternal \<or> lb_Type lbSpec = LoadBalancerTypePublic)
        \<and> (\<exists>s \<in> set (spec_Subnets (Cluster b)). \<not> knownSubnetType s)"
  then have ex: "\<exists>s \<in> set (spec_Subnets (Cluster b)). \<not> knownSubnetType s" by simp
  from groupSubnetsByZone_unknown [OF ex, of lbSpec "[]"] obtain s where
    s: "s \<in> set (spec_Subnets (Cluster b))" "\<not> knownSubnetType s"
    and g: "groupSubnetsByZone lbSpec (spec_Subnets (Cluster b)) []
              = Inl (Errorf_subnet_had_unknown_type (subnet_Name s) (subnet_Type s))"
    by blast
  from assms a g have "Build rng b c
      = Inr (Some (Errorf_subnet_had_unknown_type (subnet_Name s) (subnet_Type s)), c)"
    by (simp add: Build_def)
  with s show "\<exists>s \<in> set (spec_Subnets (Cluster b)). \<not> knownSubnetType s
      \<and> Build rng b c
          = Inr (Some (Errorf_subnet_had_unknown_type (subnet_Name s) (subnet_Type s)), c)"
    by blast
qed


theorem Build_rejects_unknown_types_witness:
  "UseLoadBalancerForAPI (withLoadBalancer (Some (publicLB\<lparr>lb_Type := ''network''\<rparr>)) exampleBuilder)
   \<and> lb_Type (publicLB\<lparr>lb_Type := ''network''\<rparr>) \<noteq> LoadBalancerTypeInternal
   \<and> lb_Type (publicLB\<lparr>lb_Type := ''network''\<rparr>) \<noteq> LoadBalancerTypePublic
   \<and> Build (\<lambda>n. 0) (withLoadBalancer (Some (publicLB\<lparr>lb_Type := ''network''\<rparr>)) exampleBuilder) []
       = Inr (Some (Errorf_unhandled_LoadBalancer_type ''network''), [])
   \<and> \<not> knownSubnetType (subnetB\<lparr>subnet_Type := ''dmz''\<rparr>)
   \<and> Build (\<lambda>n. 0) (withSubnets [subnetA, subnetB\<lparr>subnet_Type := ''dmz''\<rparr>] exampleBuilder) []
       = Inr (Some (Errorf_subnet_had_unknown_type ''B'' ''dmz''), [])"
proof -
  let ?b1 = "withLoadBalancer (Some (publicLB\<lparr>lb_Type := ''network''\<rparr>)) exampleBuilder"
  let ?b2 = "withSubnets [subnetA, subnetB\<lparr>subnet_Type := ''dmz''\<rparr>] exampleBuilder"
  have u1: "UseLoadBalancerForAPI ?b1"
    and l1: "spec_LoadBalancer (Cluster ?b1) = Some (publicLB\<lparr>lb_Type := ''network''\<rparr>)"
    by (simp_all add: withLoadBalancer_def exampleBuilder_def)
  have t1: "lb_Type (publicLB\<lparr>lb_Type := ''network''\<rparr>) \<noteq> LoadBalancerTypeInternal"
    "lb_Type (publicLB\<lparr>lb_Type := ''network''\<rparr>) \<noteq> LoadBalancerTypePublic"
    by (simp_all add: LoadBalancerTypeInternal_def LoadBalancerTypePublic_def)
  have u2: "UseLoadBalancerForAPI ?b2"
    and l2: "spec_LoadBalancer (Cluster ?b2) = Some publicLB"
    and s2: "spec_Subnets (Cluster ?b2) = [subnetA, subnetB\<lparr>subnet_Type := ''dmz''\<rparr>]"
    by (simp_all add: withSubnets_def exampleBuilder_def)
  have t2: "lb_Type publicLB = LoadBalancerTypePublic" by (simp add: publicLB_def)
  have kA: "knownSubnetType subnetA" by (simp add: knownSubnetType_def subnetA_def)
  have kB: "\<not> knownSubnetType (subnetB\<lparr>subnet_Type := ''dmz''\<rparr>)"
    by (simp add: knownSubnetType_def SubnetTypePublic_def SubnetTypeUtility_def
        SubnetTypePrivate_def)
  have nB: "subnet_Name (subnetB\<lparr>subnet_Type := ''dmz''\<rparr>) = ''B''"
    by (simp add: subnetB_def)
  from Build_rejects_unknown_types [OF u1 l1, of "\<lambda>n. 0" "[]"] t1
  have r1: "Build (\<lambda>n. 0) ?b1 [] = Inr (Some (Errorf_unhandled_LoadBalancer_type ''network''), [])"
    by simp
  from Build_rejects_unknown_types [OF u2 l2, of "\<lambda>n. 0" "[]"] t2 kA kB nB
  have r2: "Build (\<lambda>n. 0) ?b2 [] = Inr (Some (Errorf_subnet_had_unknown_type ''B'' ''dmz''), [])"
    by (auto simp: s2)
  from u1 t1 r1 kB r2 show ?thesis by simp
qed

lemma accepted_Build_ex:
  assumes "accepted b"
  shows "\<exists>lbSpec m. spec_LoadBalancer (Cluster b) = Some lbSpec
    \<and> (lb_Type lbSpec = LoadBalancerTypeInternal \<or> lb_Type lbSpec = LoadBalancerTypePublic)
    \<and> groupSubnetsByZone lbSpec (spec_Subnets (Cluster b)) [] = Inr m
    \<and> wfZoneMap lbSpec (spec_Subnets (Cluster b)) m
    \<and> (\<forall>rng c. Build rng b c
           = Inr (None, c @ emitted b lbSpec (chosenLinks b (rangeOrder rng m))))"
proof (rule accepted_Build [OF assms])
  fix lbSpec m
  assume "spec_LoadBalancer (Cluster b) = Some lbSpec"
    "lb_Type lbSpec = LoadBalancerTypeInternal \<or> lb_Type lbSpec = LoadBalancerTypePublic"
    "groupSubnetsByZone lbSpec (spec_Subnets (Cluster b)) [] = Inr m"
    "wfZoneMap lbSpec (spec_Subnets (Cluster b)) m"
    "\<And>rng c. Build rng b c
       = Inr (None, c @ emitted b lbSpec (chosenLinks b (rangeOrder rng m)))"
  then show ?thesis by blast
qed

lemma groupSubnetsByZone_error_kind:
  "groupSubnetsByZone lbSpec xs m = Inl e \<Longrightarrow> \<exists>n t. e = Errorf_subnet_had_unknown_type n t"
proof (induction xs arbitrary: m)
  case Nil
  then show ?case by simp
next
  case (Cons s rest)
  then show ?case
    by (simp add: groupSubnetsByZone_step del: groupSubnetsByZone.simps split: if_splits) blast+
qed

lemma elb_Subnets_emitted:
  "emitted b lbSpec links = LoadBalancerTask elb # rest \<Longrightarrow> elb_Subnets elb = links"
  by (auto simp: emitted_def newLoadBalancer_def)

lemma loadBalancerSubnets_apiAccessRule: "loadBalancerSubnets (map apiAccessRule cs @ ts) = loadBalancerSubnets ts"
  by (induction cs) (simp_all add: apiAccessRule_def)

lemma loadBalancerSubnets_masterAttachment: "loadBalancerSubnets (map masterAttachment igs) = []"
  by (induction igs) (simp_all add: masterAttachment_def)

lemma loadBalancerSubnets_emitted: "loadBalancerSubnets (emitted b lbSpec links) = [links]"
  by (simp add: emitted_def loadBalancerSubnets_apiAccessRule loadBalancerSubnets_masterAttachment
      elbSecurityGroup_def elbEgressRule_def elbToMasterRule_def newLoadBalancer_def)

lemma emitted_Cons:
  "\<exists>elb rest. emitted b lbSpec links = LoadBalancerTask elb # rest
     \<and> elb_Subnets elb = links
     \<and> elb_Scheme elb = (if lb_Type lbSpec = LoadBalancerTypeInternal then Some ''internal'' else None)
     \<and> loadBalancerSubnets rest = []"
proof -
  have "loadBalancerSubnets (tl (emitted b lbSpec links)) = []"
    by (simp add: emitted_def loadBalancerSubnets_apiAccessRule loadBalancerSubnets_masterAttachment
      elbSecurityGroup_def elbEgressRule_def elbToMasterRule_def)
  then show ?thesis
    by (simp add: emitted_def newLoadBalancer_def)
qed

text \<open>
  C10 (scheme). Build never returns the error of the default branch of its second
  switch on the type. When the configuration is accepted, the load-balancer task that
  Build adds has the scheme "internal" exactly when the type is internal, and a nil
  scheme when the type is public.
\<close>

theorem scheme_follows_type:
  "(\<forall>t c'. Build rng b c \<noteq> Inr (Some (Errorf_unknown_elb_Type t), c'))
   \<and> (accepted b \<longrightarrow>
        (\<exists>lbSpec elb rest.
           spec_LoadBalancer (Cluster b) = Some lbSpec
           \<and> Build rng b c = Inr (None, c @ LoadBalancerTask elb # rest)
           \<and> (elb_Scheme elb = Some ''internal'') = (lb_Type lbSpec = LoadBalancerTypeInternal)
           \<and> (elb_Scheme elb = None) = (lb_Type lbSpec = LoadBalancerTypePublic)))"
proof (intro conjI allI impI)
  fix t c'
  show "Build rng b c \<noteq> Inr (Some (Errorf_unknown_elb_Type t), c')"
    by (auto simp: Build_def chooseSubnets_eq buildTasks_eq
        split: option.splits sum.splits dest: groupSubnetsByZone_error_kind)
next
  assume "accepted b"
  then obtain lbSpec m where lb: "spec_LoadBalancer (Cluster b) = Some lbSpec"
    and ty: "lb_Type lbSpec = LoadBalancerTypeInternal \<or> lb_Type lbSpec = LoadBalancerTypePublic"
    and bd: "\<And>rng c. Build rng b c
               = Inr (None, c @ emitted b lbSpec (chosenLinks b (rangeOrder rng m)))"
    using accepted_Build_ex by blast
  from emitted_Cons [of b lbSpec "chosenLinks b (rangeOrder rng m)"] obtain elb rest where
    e: "emitted b lbSpec (chosenLinks b (rangeOrder rng m)) = LoadBalancerTask elb # rest"
    and sch: "elb_Scheme elb
                = (if lb_Type lbSpec = LoadBalancerTypeInternal then Some ''internal'' else None)"
    by blast
  from ty sch types_distinct(4)
  have "(elb_Scheme elb = Some ''internal'') = (lb_Type lbSpec = LoadBalancerTypeInternal)"
    and "(elb_Scheme elb = None) = (lb_Type lbSpec = LoadBalancerTypePublic)"
    by auto
  with lb bd [of rng c] e
  show "\<exists>lbSpec elb rest.
           spec_LoadBalancer (Cluster b) = Some lbSpec
           \<and> Build rng b c = Inr (None, c @ LoadBalancerTask elb # rest)
           \<and> (elb_Scheme elb = Some ''internal'') = (lb_Type lbSpec = LoadBalancerTypeInternal)
           \<and> (elb_Scheme elb = None) = (lb_Type lbSpec = LoadBalancerTypePublic)"
    by auto
qed

theorem scheme_follows_type_witness:
  "accepted exampleBuilder
   \<and> accepted (withLoadBalancer (Some (publicLB\<lparr>lb_Type := LoadBalancerTypeInternal\<rparr>)) exampleBuilder)
   \<and> (\<exists>elb rest. Build (\<lambda>n. 0) exampleBuilder [] = Inr (None, LoadBalancerTask elb # rest)
         \<and> elb_Scheme elb = None)
   \<and> (\<exists>elb rest.
         Build (\<lambda>n. 0)
           (withLoadBalancer (Some (publicLB\<lparr>lb_Type := LoadBalancerTypeInternal\<rparr>)) exampleBuilder) []
           = Inr (None, LoadBalancerTask elb # rest)
         \<and> elb_Scheme elb = Some ''internal'')"
proof -
  let ?bi = "withLoadBalancer (Some (publicLB\<lparr>lb_Type := LoadBalancerTypeInternal\<rparr>)) exampleBuilder"
  have ai: "accepted ?bi"
    by (simp add: accepted_def withLoadBalancer_def exampleBuilder_def knownSubnetType_def
        subnetA_def subnetB_def)
  have lp: "spec_LoadBalancer (Cluster exampleBuilder) = Some publicLB"
    "lb_Type publicLB = LoadBalancerTypePublic"
    by (simp_all add: exampleBuilder_def publicLB_def)
  have li: "spec_LoadBalancer (Cluster ?bi) = Some (publicLB\<lparr>lb_Type := LoadBalancerTypeInternal\<rparr>)"
    by (simp add: withLoadBalancer_def)
  from scheme_follows_type [of "\<lambda>n. 0" exampleBuilder "[]"] example_accepted lp
  have p: "\<exists>elb rest. Build (\<lambda>n. 0) exampleBuilder [] = Inr (None, LoadBalancerTask elb # rest)
         \<and> elb_Scheme elb = None"
    by auto
  from scheme_follows_type [of "\<lambda>n. 0" ?bi "[]"] ai li
  have i: "\<exists>elb rest. Build (\<lambda>n. 0) ?bi [] = Inr (None, LoadBalancerTask elb # rest)
         \<and> elb_Scheme elb = Some ''internal''"
    by auto
  from example_accepted ai p i show ?thesis by blast
qed

text \<open>
  C8 (no compatible subnet). When the configuration is accepted, Build returns nil
  whatever the subnets are, and the load-balancer task it adds links only subnets of the
  cluster that are compatible with the type of the load balancer. So a zone without a
  compatible subnet has no link, and when no subnet at all is compatible the list of
  subnets of the load balancer is empty.
\<close>

theorem no_compatible_subnet_is_no_error:
  assumes "accepted b" and "spec_LoadBalancer (Cluster b) = Some lbSpec"
  shows "\<exists>elb rest.
           Build rng b c = Inr (None, c @ LoadBalancerTask elb # rest)
           \<and> (\<forall>l \<in> set (elb_Subnets elb).
                 \<exists>s \<in> set (spec_Subnets (Cluster b)). l = LinkToSubnet (Some s) \<and> compatible lbSpec s)
           \<and> (\<forall>zone. (\<forall>s \<in> set (spec_Subnets (Cluster b)).
                          subnet_Zone s = zone \<longrightarrow> \<not> compatible lbSpec s)
                 \<longrightarrow> (\<forall>s. subnet_Zone s = zone \<longrightarrow> LinkToSubnet (Some s) \<notin> set (elb_Subnets elb)))
           \<and> ((\<forall>s \<in> set (spec_Subnets (Cluster b)). \<not> compatible lbSpec s)
                 \<longrightarrow> elb_Subnets elb = [])"
proof -
  from assms obtain m where
    wf: "wfZoneMap lbSpec (spec_Subnets (Cluster b)) m"
    and bd: "\<And>rng c. Build rng b c
               = Inr (None, c @ emitted b lbSpec (chosenLinks b (rangeOrder rng m)))"
    using accepted_Build_ex [OF assms(1)] by auto
  let ?links = "chosenLinks b (rangeOrder rng m)"
  from emitted_Cons [of b lbSpec ?links] obtain elb rest where
    e: "emitted b lbSpec ?links = LoadBalancerTask elb # rest" and sub: "elb_Subnets elb = ?links"
    by blast
  have mem: "\<exists>s \<in> set (spec_Subnets (Cluster b)). l = LinkToSubnet (Some s) \<and> compatible lbSpec s"
    if "l \<in> set (elb_Subnets elb)" for l
    using chosenLinks_member [OF wf, of l b rng] that sub by simp
  have zone: "LinkToSubnet (Some s) \<notin> set (elb_Subnets elb)"
    if "\<forall>s \<in> set (spec_Subnets (Cluster b)). subnet_Zone s = zone \<longrightarrow> \<not> compatible lbSpec s"
      and "subnet_Zone s = zone" for zone s
  proof
    assume "LinkToSubnet (Some s) \<in> set (elb_Subnets elb)"
    from mem [OF this] that show False by auto
  qed
  have none: "elb_Subnets elb = []"
    if "\<forall>s \<in> set (spec_Subnets (Cluster b)). \<not> compatible lbSpec s"
  proof (cases "elb_Subnets elb")
    case Nil
    then show ?thesis .
  next
    case (Cons l ls)
    then have "l \<in> set (elb_Subnets elb)" by simp
    from mem [OF this] that show ?thesis by auto
  qed
  from bd [of rng c] e mem zone none show ?thesis by auto
qed

theorem no_compatible_subnet_is_no_error_witness:
  "accepted (withLoadBalancer (Some (publicLB\<lparr>lb_Type := LoadBalancerTypeInternal\<rparr>)) exampleBuilder)
   \<and> \<not> compatible (publicLB\<lparr>lb_Type := LoadBalancerTypeInternal\<rparr>) subnetA
   \<and> \<not> compatible (publicLB\<lparr>lb_Type := LoadBalancerTypeInternal\<rparr>) subnetB
   \<and> (\<exists>elb rest.
         Build (\<lambda>n. 0)
           (withLoadBalancer (Some (publicLB\<lparr>lb_Type := LoadBalancerTypeInternal\<rparr>)) exampleBuilder) []
           = Inr (None, LoadBalancerTask elb # rest)
         \<and> elb_Subnets elb = [])"
proof -
  let ?lb = "publicLB\<lparr>lb_Type := LoadBalancerTypeInternal\<rparr>"
  let ?bi = "withLoadBalancer (Some ?lb) exampleBuilder"
  have ai: "accepted ?bi"
    by (simp add: accepted_def withLoadBalancer_def exampleBuilder_def knownSubnetType_def
        subnetA_def subnetB_def)
  have li: "spec_LoadBalancer (Cluster ?bi) = Some ?lb"
    by (simp add: withLoadBalancer_def)
  have ss: "spec_Subnets (Cluster ?bi) = [subnetA, subnetB]"
    by (simp add: withLoadBalancer_def exampleBuilder_def)
  have nc: "\<not> compatible ?lb subnetA" "\<not> compatible ?lb subnetB"
    using types_distinct
    by (simp_all add: compatible_def subnetA_def subnetB_def)
  from no_compatible_subnet_is_no_error [OF ai li, of "\<lambda>n. 0" "[]"] nc
  have "\<exists>elb rest. Build (\<lambda>n. 0) ?bi [] = Inr (None, LoadBalancerTask elb # rest)
         \<and> elb_Subnets elb = []"
    by (auto simp: ss)
  with ai nc show ?thesis by blast
qed

lemma rangeOrder_single: "rangeOrder rng [e] = [e]"
  by (simp add: insertAt_def)

text \<open>
  C3 (end-to-end scenario). The cluster has exactly the subnets A (zone us-east-1a,
  utility) and B (zone us-east-1a, public), in either order, a public load balancer, and
  master instance groups whose subnet lists are the one list [B]. Then A scores 1 and B
  scores 1, the name of A is lexically smaller, chooseBestSubnetForELB returns A, and
  Build adds one load-balancer task, whose only subnet link is the link to A.
\<close>

theorem end_to_end_scenario:
  assumes "UseLoadBalancerForAPI b" and "spec_LoadBalancer (Cluster b) = Some lbSpec"
    and "lb_Type lbSpec = LoadBalancerTypePublic"
    and "spec_Subnets (Cluster b) = [subnetA, subnetB] \<or> spec_Subnets (Cluster b) = [subnetB, subnetA]"
    and "map ig_Subnets (MasterInstanceGroups b) = [[''B'']]"
  shows "score (scoreSubnet (migSubnets b) subnetA) = 1
         \<and> score (scoreSubnet (migSubnets b) subnetB) = 1
         \<and> subnet_Name subnetA < subnet_Name subnetB
         \<and> chooseBestSubnetForELB b ''us-east-1a'' (spec_Subnets (Cluster b)) = Inr (Some subnetA)
         \<and> (\<exists>elb rest. Build rng b c = Inr (None, c @ LoadBalancerTask elb # rest)
               \<and> elb_Subnets elb = [LinkToSubnet (Some subnetA)]
               \<and> loadBalancerSubnets rest = [])"
proof -
  from assms(5) have mig: "migSubnets b = {''B''}" by (simp add: migSubnets_def)
  have sa: "score (scoreSubnet (migSubnets b) subnetA) = 1"
    and sb: "score (scoreSubnet (migSubnets b) subnetB) = 1"
    by (simp_all add: mig scoreSubnet_def subnetA_def subnetB_def
        SubnetTypeUtility_def SubnetTypePublic_def)
  have lt: "subnet_Name subnetA < subnet_Name subnetB"
    by (simp add: subnetA_def subnetB_def)
  have ch: "chooseBestSubnetForELB b zone [subnetA, subnetB] = Inr (Some subnetA)"
    "chooseBestSubnetForELB b zone [subnetB, subnetA] = Inr (Some subnetA)" for zone
    by (simp_all add: chooseBest_eq mig Less_def scoreSubnet_def subnetA_def subnetB_def
        SubnetTypeUtility_def SubnetTypePublic_def)
  have ty: "lb_Type lbSpec = LoadBalancerTypeInternal \<or> lb_Type lbSpec = LoadBalancerTypePublic"
    using assms(3) by simp
  have cA: "compatible lbSpec subnetA" and cB: "compatible lbSpec subnetB"
    and kA: "knownSubnetType subnetA" and kB: "knownSubnetType subnetB"
    and z: "subnet_Zone subnetA = ''us-east-1a''" "subnet_Zone subnetB = ''us-east-1a''"
    using assms(3) by (simp_all add: compatible_def knownSubnetType_def subnetA_def subnetB_def)
  from assms(4) obtain subs where subs: "spec_Subnets (Cluster b) = subs"
    and cases: "subs = [subnetA, subnetB] \<or> subs = [subnetB, subnetA]" by auto
  from cases cA cB kA kB z
  have grp: "groupSubnetsByZone lbSpec subs [] = Inr [(''us-east-1a'', subs)]"
    by (auto simp add: groupSubnetsByZone_step simp del: groupSubnetsByZone.simps(2))
  from cases ch have chs: "chooseBestSubnetForELB b ''us-east-1a'' subs = Inr (Some subnetA)"
    by auto
  then have links: "chosenLinks b (rangeOrder rng [(''us-east-1a'', subs)])
                      = [LinkToSubnet (Some subnetA)]"
    by (simp add: chosenLinks_def insertAt_def)
  from Build_eq [OF assms(1,2) ty, of "[(''us-east-1a'', subs)]" rng c] grp subs links
  have bd: "Build rng b c = Inr (None, c @ emitted b lbSpec [LinkToSubnet (Some subnetA)])"
    by simp
  from emitted_Cons [of b lbSpec "[LinkToSubnet (Some subnetA)]"] bd
  have "\<exists>elb rest. Build rng b c = Inr (None, c @ LoadBalancerTask elb # rest)
               \<and> elb_Subnets elb = [LinkToSubnet (Some subnetA)]
               \<and> loadBalancerSubnets rest = []"
    by auto
  with sa sb lt chs subs show ?thesis by simp
qed

theorem end_to_end_scenario_witness:
  "UseLoadBalancerForAPI exampleBuilder
   \<and> spec_LoadBalancer (Cluster exampleBuilder) = Some publicLB
   \<and> lb_Type publicLB = LoadBalancerTypePublic
   \<and> spec_Subnets (Cluster exampleBuilder) = [subnetA, subnetB]
   \<and> map ig_Subnets (MasterInstanceGroups exampleBuilder) = [[''B'']]
   \<and> chooseBestSubnetForELB exampleBuilder ''us-east-1a'' [subnetA, subnetB] = Inr (Some subnetA)
   \<and> loadBalancerSubnets (emittedBy (\<lambda>n. 0) exampleBuilder []) = [[LinkToSubnet (Some subnetA)]]"
proof -
  have h: "UseLoadBalancerForAPI exampleBuilder"
    "spec_LoadBalancer (Cluster exampleBuilder) = Some publicLB"
    "lb_Type publicLB = LoadBalancerTypePublic"
    "spec_Subnets (Cluster exampleBuilder) = [subnetA, subnetB]
       \<or> spec_Subnets (Cluster exampleBuilder) = [subnetB, subnetA]"
    "map ig_Subnets (MasterInstanceGroups exampleBuilder) = [[''B'']]"
    by (simp_all add: exampleBuilder_def publicLB_def masterB_def)
  have s: "spec_Subnets (Cluster exampleBuilder) = [subnetA, subnetB]"
    by (simp add: exampleBuilder_def)
  from end_to_end_scenario [OF h, of "\<lambda>n. 0" "[]"] obtain elb rest where
    c: "chooseBestSubnetForELB exampleBuilder ''us-east-1a'' (spec_Subnets (Cluster exampleBuilder))
          = Inr (Some subnetA)"
    and bd: "Build (\<lambda>n. 0) exampleBuilder [] = Inr (None, LoadBalancerTask elb # rest)"
    and e: "elb_Subnets elb = [LinkToSubnet (Some subnetA)]" "loadBalancerSubnets rest = []"
    by auto
  from bd e have "loadBalancerSubnets (emittedBy (\<lambda>n. 0) exampleBuilder [])
      = [[LinkToSubnet (Some subnetA)]]"
    by (simp add: emittedBy_def)
  with h(1,2,3,5) s c show ?thesis by simp
qed










text \<open>
  C6, as the claim states it, fails: the first loop and the first switch come after the
  two guards. A cluster with a subnet of the unknown type "dmz" and no LoadBalancer
  configuration makes Build return nil, not an error.
\<close>

theorem Build_unknown_type_behind_guard_counterexample:
  "subnetB\<lparr>subnet_Type := ''dmz''\<rparr>
     \<in> set (spec_Subnets (Cluster
         (withLoadBalancer None (withSubnets [subnetA, subnetB\<lparr>subnet_Type := ''dmz''\<rparr>] exampleBuilder))))
   \<and> \<not> knownSubnetType (subnetB\<lparr>subnet_Type := ''dmz''\<rparr>)
   \<and> Build (\<lambda>n. 0)
        (withLoadBalancer None (withSubnets [subnetA, subnetB\<lparr>subnet_Type := ''dmz''\<rparr>] exampleBuilder)) []
       = Inr (None, [])"
  by (simp add: Build_def withLoadBalancer_def withSubnets_def exampleBuilder_def
      knownSubnetType_def SubnetTypePublic_def SubnetTypeUtility_def SubnetTypePrivate_def)


lemma twoZones_facts:
  "UseLoadBalancerForAPI (withSubnets [subnetA, subnetC] exampleBuilder)"
  "spec_LoadBalancer (Cluster (withSubnets [subnetA, subnetC] exampleBuilder)) = Some publicLB"
  "lb_Type publicLB = LoadBalancerTypeInternal \<or> lb_Type publicLB = LoadBalancerTypePublic"
  "groupSubnetsByZone publicLB (spec_Subnets (Cluster (withSubnets [subnetA, subnetC] exampleBuilder))) []
     = Inr [(''us-east-1a'', [subnetA]), (''us-east-1b'', [subnetC])]"
  by (simp_all add: withSubnets_def exampleBuilder_def publicLB_def subnetA_def subnetC_def
      SubnetTypeUtility_def SubnetTypePublic_def LoadBalancerTypePublic_def)

lemma twoZones_links:
  "chosenLinks b (rangeOrder (\<lambda>n. 0) [(''us-east-1a'', [subnetA]), (''us-east-1b'', [subnetC])])
     = [LinkToSubnet (Some subnetA), LinkToSubnet (Some subnetC)]"
  "chosenLinks b (rangeOrder (\<lambda>n. 1) [(''us-east-1a'', [subnetA]), (''us-east-1b'', [subnetC])])
     = [LinkToSubnet (Some subnetC), LinkToSubnet (Some subnetA)]"
  by (simp_all add: chosenLinks_def insertAt_def chooseBest_eq)

text \<open>
  C1 (determinism) does not hold of the code. The cluster has subnet A in zone
  us-east-1a and subnet C in zone us-east-1b and a public load balancer. A run whose
  range over subnetsByZone visits us-east-1a first gives the load balancer the subnets
  [A, C]; a run that visits us-east-1b first gives it [C, A]; the two runs do not add
  the same tasks.
\<close>

theorem Build_depends_on_range_order:
  "loadBalancerSubnets (emittedBy (\<lambda>n. 0) (withSubnets [subnetA, subnetC] exampleBuilder) [])
     = [[LinkToSubnet (Some subnetA), LinkToSubnet (Some subnetC)]]
   \<and> loadBalancerSubnets (emittedBy (\<lambda>n. 1) (withSubnets [subnetA, subnetC] exampleBuilder) [])
     = [[LinkToSubnet (Some subnetC), LinkToSubnet (Some subnetA)]]
   \<and> Build (\<lambda>n. 0) (withSubnets [subnetA, subnetC] exampleBuilder) []
     \<noteq> Build (\<lambda>n. 1) (withSubnets [subnetA, subnetC] exampleBuilder) []"
proof -
  let ?b = "withSubnets [subnetA, subnetC] exampleBuilder"
  note bd = Build_eq [OF twoZones_facts]
  have e0: "emittedBy (\<lambda>n. 0) ?b []
              = emitted ?b publicLB [LinkToSubnet (Some subnetA), LinkToSubnet (Some subnetC)]"
    using bd [of "\<lambda>n. 0" "[]", unfolded twoZones_links] by (simp add: emittedBy_def)
  have e1: "emittedBy (\<lambda>n. 1) ?b []
              = emitted ?b publicLB [LinkToSubnet (Some subnetC), LinkToSubnet (Some subnetA)]"
    using bd [of "\<lambda>n. 1" "[]", unfolded twoZones_links] by (simp add: emittedBy_def)
  have l0: "loadBalancerSubnets (emittedBy (\<lambda>n. 0) ?b [])
              = [[LinkToSubnet (Some subnetA), LinkToSubnet (Some subnetC)]]"
    by (simp only: e0 loadBalancerSubnets_emitted)
  have l1: "loadBalancerSubnets (emittedBy (\<lambda>n. 1) ?b [])
              = [[LinkToSubnet (Some subnetC), LinkToSubnet (Some subnetA)]]"
    by (simp only: e1 loadBalancerSubnets_emitted)
  have ne: "subnetA \<noteq> subnetC" by (simp add: subnetA_def subnetC_def)
  have "Build (\<lambda>n. 0) ?b [] \<noteq> Build (\<lambda>n. 1) ?b []"
  proof
    assume "Build (\<lambda>n. 0) ?b [] = Build (\<lambda>n. 1) ?b []"
    then have "emittedBy (\<lambda>n. 0) ?b [] = emittedBy (\<lambda>n. 1) ?b []"
      by (simp only: emittedBy_def)
    then have "[[LinkToSubnet (Some subnetA), LinkToSubnet (Some subnetC)]]
        = [[LinkToSubnet (Some subnetC), LinkToSubnet (Some subnetA)]]"
      by (simp only: l0 [symmetric] l1 [symmetric])
    with ne show False by simp
  qed
  with l0 l1 show ?thesis by (simp only: simp_thms)
qed

lemma Build_determined_up_to_subnet_order:
  "(\<not> accepted b \<longrightarrow> Build rng b c = Build rng' b c)
   \<and> (accepted b \<longrightarrow>
        (\<exists>lbSpec links links'.
           Build rng b c = Inr (None, c @ emitted b lbSpec links)
           \<and> Build rng' b c = Inr (None, c @ emitted b lbSpec links')
           \<and> mset links = mset links'))"
proof (intro conjI impI)
  assume na: "\<not> accepted b"
  show "Build rng b c = Build rng' b c"
  proof (cases "UseLoadBalancerForAPI b")
    case False
    then show ?thesis by (simp add: Build_def)
  next
    case use: True
    show ?thesis
    proof (cases "spec_LoadBalancer (Cluster b)")
      case None
      then show ?thesis by (simp add: Build_def)
    next
      case (Some lbSpec)
      show ?thesis
      proof (cases "lb_Type lbSpec = LoadBalancerTypeInternal \<or> lb_Type lbSpec = LoadBalancerTypePublic")
        case False
        with Some show ?thesis by (simp add: Build_def)
      next
        case True
        with na use Some have "\<exists>s \<in> set (spec_Subnets (Cluster b)). \<not> knownSubnetType s"
          by (auto simp: accepted_def list_all_iff)
        from groupSubnetsByZone_unknown [OF this, of lbSpec "[]"] obtain e where
          "groupSubnetsByZone lbSpec (spec_Subnets (Cluster b)) [] = Inl e" by blast
        with Some show ?thesis by (simp add: Build_def)
      qed
    qed
  qed
next
  assume "accepted b"
  from accepted_Build_ex [OF this] obtain lbSpec m where
    bd: "\<forall>rng c. Build rng b c = Inr (None, c @ emitted b lbSpec (chosenLinks b (rangeOrder rng m)))"
    by blast
  have "mset (chosenLinks b (rangeOrder rng m)) = mset (chosenLinks b (rangeOrder rng' m))"
    by (simp add: chosenLinks_def mset_rangeOrder)
  with bd show "\<exists>lbSpec links links'.
           Build rng b c = Inr (None, c @ emitted b lbSpec links)
           \<and> Build rng' b c = Inr (None, c @ emitted b lbSpec links')
           \<and> mset links = mset links'"
    by blast
qed

end
